theory Spec2Isabelle
  imports Complex_Main "HOL-Library.Sublist"
begin

text \<open>
  A shallow embedding of the dashboard's data logic: spreadsheet ingestion and column
  classification (\<open>processExcelFile\<close>), aggregation (\<open>aggregateData\<close>), filter evaluation
  (\<open>getFilteredRows\<close>), the common-column computations and the state transitions for file
  import and dataset deletion. The JavaScript values the code computes with are modelled
  first: numbers as IEEE 754 binary64 values with the rounding of each operation written
  out, strings, the conversions between them, and objects with their property order and
  the members that a row inherits.
\<close>

section \<open>JavaScript numbers\<close>

text \<open>
  A number is \<open>NaN\<close>, one of the two infinities, or a finite double, held as the rational
  it denotes; the two zeros are not distinguished. \<open>binary64\<close> rounds an exact value to the
  nearest double, a tie going to the even significand: \<open>ilog2\<close> gives the binary exponent of
  a positive rational, the spacing of the doubles at that exponent is \<open>2 powi (e - 52)\<close>
  (from exponent \<open>-1022\<close> downwards the spacing stays \<open>2 powi (-1074)\<close>), and a rounded
  magnitude of \<open>2 powi 1024\<close> or more is an infinity. Every arithmetic operation computes
  the exact result and rounds it.
\<close>

datatype jsnum = NaN | PosInf | NegInf | Fin rat

function bitlen :: "int \<Rightarrow> int" where
  "bitlen k = (if k \<le> 0 then 0 else 1 + bitlen (k div 2))"
  by pat_completeness auto
termination by (relation "measure nat") auto

declare bitlen.simps [simp del]

definition ilog2 :: "rat \<Rightarrow> int" where
  "ilog2 a = (let (p, d) = quotient_of a;
                  e = bitlen p - bitlen d
              in if 2 powi e \<le> a then e else e - 1)"

definition round_half_even :: "rat \<Rightarrow> int" where
  "round_half_even q = (let f = \<lfloor>q\<rfloor>; d = q - of_int f
                        in if d < 1/2 then f else if 1/2 < d then f + 1
                           else if even f then f else f + 1)"

definition binary64 :: "rat \<Rightarrow> jsnum" where
  "binary64 q = (if q = 0 then Fin 0 else
     let a = \<bar>q\<bar>;
         e = max (ilog2 a) (- 1022);
         ulp = 2 powi (e - 52);
         r = of_int (round_half_even (a / ulp)) * ulp
     in if 2 powi 1024 \<le> r then (if 0 < q then PosInf else NegInf)
        else Fin (sgn q * r))"

fun js_neg :: "jsnum \<Rightarrow> jsnum" where
  "js_neg NaN = NaN"
| "js_neg PosInf = NegInf"
| "js_neg NegInf = PosInf"
| "js_neg (Fin a) = Fin (- a)"

fun js_add :: "jsnum \<Rightarrow> jsnum \<Rightarrow> jsnum" where
  "js_add NaN _ = NaN"
| "js_add _ NaN = NaN"
| "js_add PosInf NegInf = NaN"
| "js_add NegInf PosInf = NaN"
| "js_add PosInf _ = PosInf"
| "js_add NegInf _ = NegInf"
| "js_add _ PosInf = PosInf"
| "js_add _ NegInf = NegInf"
| "js_add (Fin a) (Fin b) = binary64 (a + b)"

fun js_sign :: "jsnum \<Rightarrow> rat" where
  "js_sign NaN = 0"
| "js_sign PosInf = 1"
| "js_sign NegInf = - 1"
| "js_sign (Fin a) = sgn a"

definition js_inf :: "rat \<Rightarrow> jsnum" where
  "js_inf s = (if s = 0 then NaN else if 0 < s then PosInf else NegInf)"

fun js_mul :: "jsnum \<Rightarrow> jsnum \<Rightarrow> jsnum" where
  "js_mul NaN _ = NaN"
| "js_mul _ NaN = NaN"
| "js_mul (Fin a) (Fin b) = binary64 (a * b)"
| "js_mul x y = js_inf (js_sign x * js_sign y)"

fun js_div :: "jsnum \<Rightarrow> jsnum \<Rightarrow> jsnum" where
  "js_div NaN _ = NaN"
| "js_div _ NaN = NaN"
| "js_div (Fin a) (Fin b) = (if b = 0 then js_inf (sgn a) else binary64 (a / b))"
| "js_div (Fin a) _ = Fin 0"
| "js_div x (Fin b) = js_inf (js_sign x * (if b < 0 then - 1 else 1))"
| "js_div _ _ = NaN"

text \<open>\<open>Math.round\<close> returns the nearest integer, a tie going towards positive infinity.\<close>

fun Math_round :: "jsnum \<Rightarrow> jsnum" where
  "Math_round (Fin a) = Fin (of_int \<lfloor>a + 1 / 2\<rfloor>)"
| "Math_round x = x"

fun isNaN :: "jsnum \<Rightarrow> bool" where
  "isNaN NaN = True"
| "isNaN _ = False"

fun isFinite :: "jsnum \<Rightarrow> bool" where
  "isFinite (Fin a) = True"
| "isFinite _ = False"

section \<open>Strings and numeric literals\<close>

text \<open>
  A string is a list of characters. \<open>StringToNumber\<close> is the conversion that \<open>Number\<close>
  applies to a string: white space at both ends is dropped; the empty string is 0; a
  binary, octal or hexadecimal integer literal, or a decimal literal with optional sign,
  fraction and exponent, is rounded to the nearest double; \<open>Infinity\<close> with optional sign is
  an infinity; every other string is \<open>NaN\<close>.
\<close>

definition digit_of :: "char \<Rightarrow> int option" where
  "digit_of c = map_of [(CHR ''0'', 0), (CHR ''1'', 1), (CHR ''2'', 2), (CHR ''3'', 3),
     (CHR ''4'', 4), (CHR ''5'', 5), (CHR ''6'', 6), (CHR ''7'', 7), (CHR ''8'', 8),
     (CHR ''9'', 9)] c"

definition hex_digit_of :: "char \<Rightarrow> int option" where
  "hex_digit_of c = (case digit_of c of Some d \<Rightarrow> Some d | None \<Rightarrow>
     map_of [(CHR ''a'', 10), (CHR ''b'', 11), (CHR ''c'', 12), (CHR ''d'', 13),
       (CHR ''e'', 14), (CHR ''f'', 15), (CHR ''A'', 10), (CHR ''B'', 11), (CHR ''C'', 12),
       (CHR ''D'', 13), (CHR ''E'', 14), (CHR ''F'', 15)] c)"

definition is_digit :: "char \<Rightarrow> bool" where
  "is_digit c \<longleftrightarrow> digit_of c \<noteq> None"

definition radix_value :: "int \<Rightarrow> string \<Rightarrow> int" where
  "radix_value b s = foldl (\<lambda>n c. b * n + (case hex_digit_of c of Some d \<Rightarrow> d | None \<Rightarrow> 0)) 0 s"

definition is_StrWhiteSpaceChar :: "char \<Rightarrow> bool" where
  "is_StrWhiteSpaceChar c \<longleftrightarrow>
     c \<in> set [CHR 0x09, CHR 0x0A, CHR 0x0B, CHR 0x0C, CHR 0x0D, CHR 0x20, CHR 0xA0]"

definition trim :: "string \<Rightarrow> string" where
  "trim s = rev (dropWhile is_StrWhiteSpaceChar (rev (dropWhile is_StrWhiteSpaceChar s)))"

definition radix_literal :: "int \<Rightarrow> string \<Rightarrow> rat option" where
  "radix_literal b s =
     (if s \<noteq> [] \<and> list_all (\<lambda>c. case hex_digit_of c of Some d \<Rightarrow> d < b | None \<Rightarrow> False) s
      then Some (of_int (radix_value b s)) else None)"

definition NonDecimalIntegerLiteral :: "string \<Rightarrow> rat option" where
  "NonDecimalIntegerLiteral s =
     (if take 2 s \<in> set [''0x'', ''0X''] then radix_literal 16 (drop 2 s)
      else if take 2 s \<in> set [''0o'', ''0O''] then radix_literal 8 (drop 2 s)
      else if take 2 s \<in> set [''0b'', ''0B''] then radix_literal 2 (drop 2 s)
      else None)"

definition strip_sign :: "string \<Rightarrow> bool \<times> string" where
  "strip_sign s = (case s of [] \<Rightarrow> (False, s)
     | c # r \<Rightarrow> if c = CHR ''-'' then (True, r) else if c = CHR ''+'' then (False, r)
                else (False, s))"

definition SignedInteger :: "string \<Rightarrow> int option" where
  "SignedInteger s =
     (let (neg, ds) = strip_sign s
      in if ds \<noteq> [] \<and> list_all is_digit ds
         then Some (if neg then - radix_value 10 ds else radix_value 10 ds) else None)"

definition ExponentPart :: "string \<Rightarrow> int option" where
  "ExponentPart s =
     (case s of [] \<Rightarrow> Some 0
      | c # r \<Rightarrow> if c = CHR ''e'' \<or> c = CHR ''E'' then SignedInteger r else None)"

datatype literal_value = NotNumeric | InfinityLiteral | MV rat

definition StrUnsignedDecimalLiteral :: "string \<Rightarrow> literal_value" where
  "StrUnsignedDecimalLiteral s =
     (if s = ''Infinity'' then InfinityLiteral
      else let ip = takeWhile is_digit s; r1 = dropWhile is_digit s;
               dot = (r1 \<noteq> [] \<and> hd r1 = CHR ''.'');
               fp = (if dot then takeWhile is_digit (tl r1) else []);
               r2 = (if dot then dropWhile is_digit (tl r1) else r1)
           in if ip = [] \<and> fp = [] then NotNumeric
              else (case ExponentPart r2 of None \<Rightarrow> NotNumeric
                    | Some e \<Rightarrow> MV ((of_int (radix_value 10 ip)
                          + of_int (radix_value 10 fp) / 10 ^ length fp) * 10 powi e)))"

definition StrDecimalLiteral :: "string \<Rightarrow> jsnum" where
  "StrDecimalLiteral s =
     (let (neg, u) = strip_sign s
      in case StrUnsignedDecimalLiteral u of
           NotNumeric \<Rightarrow> NaN
         | InfinityLiteral \<Rightarrow> (if neg then NegInf else PosInf)
         | MV mv \<Rightarrow> (if neg then js_neg (binary64 mv) else binary64 mv))"

definition StringToNumber :: "string \<Rightarrow> jsnum" where
  "StringToNumber s =
     (let t = trim s
      in if t = [] then Fin 0
         else case NonDecimalIntegerLiteral t of Some mv \<Rightarrow> binary64 mv
              | None \<Rightarrow> StrDecimalLiteral t)"

section \<open>Number to string\<close>

text \<open>
  \<open>Number_toString\<close> prints a finite non-zero number with the fewest decimal digits that
  read back as the same double, the digit string closest to the value among those of that
  length; \<open>n\<close> is the position of the decimal point. The digits are written out in full
  for \<open>-6 < n \<le> 21\<close> and with an exponent otherwise.
\<close>

definition digit_char :: "int \<Rightarrow> char" where
  "digit_char d = (if d = 0 then CHR ''0'' else if d = 1 then CHR ''1''
     else if d = 2 then CHR ''2'' else if d = 3 then CHR ''3'' else if d = 4 then CHR ''4''
     else if d = 5 then CHR ''5'' else if d = 6 then CHR ''6'' else if d = 7 then CHR ''7''
     else if d = 8 then CHR ''8'' else CHR ''9'')"

function dec_digits :: "int \<Rightarrow> string" where
  "dec_digits n = (if n < 10 then [digit_char n] else dec_digits (n div 10) @ [digit_char (n mod 10)])"
  by pat_completeness auto
termination by (relation "measure nat") auto

declare dec_digits.simps [simp del]

function declen :: "int \<Rightarrow> int" where
  "declen k = (if k \<le> 0 then 0 else 1 + declen (k div 10))"
  by pat_completeness auto
termination by (relation "measure nat") auto

declare declen.simps [simp del]

definition decimal_exponent :: "rat \<Rightarrow> int" where
  "decimal_exponent a = (let (p, d) = quotient_of a; n = declen p - declen d
                         in if 10 powi n \<le> a then n + 1 else n)"

definition digits_candidate :: "rat \<Rightarrow> int \<Rightarrow> int \<Rightarrow> int option" where
  "digits_candidate q n k =
     (let t = q / 10 powi (n - k); lo = \<lfloor>t\<rfloor>; hi = \<lceil>t\<rceil>;
          ok = (\<lambda>s. 10 ^ nat (k - 1) \<le> s \<and> s < 10 ^ nat k
                     \<and> binary64 (of_int s * 10 powi (n - k)) = binary64 q)
      in if ok lo \<and> ok hi
         then Some (if t - of_int lo < of_int hi - t then lo
                    else if of_int hi - t < t - of_int lo then hi
                    else if even lo then lo else hi)
         else if ok lo then Some lo else if ok hi then Some hi else None)"

fun shortest_digits :: "rat \<Rightarrow> int \<Rightarrow> int list \<Rightarrow> int \<times> int" where
  "shortest_digits q n [] = (round_half_even (q / 10 powi (n - 17)), 17)"
| "shortest_digits q n (k # ks) =
     (case digits_candidate q n k of Some s \<Rightarrow> (s, k) | None \<Rightarrow> shortest_digits q n ks)"

definition format_digits :: "string \<Rightarrow> int \<Rightarrow> string" where
  "format_digits ds n =
     (let k = int (length ds)
      in if k \<le> n \<and> n \<le> 21 then ds @ replicate (nat (n - k)) CHR ''0''
         else if 0 < n \<and> n \<le> 21 then take (nat n) ds @ ''.'' @ drop (nat n) ds
         else if - 6 < n \<and> n \<le> 0 then ''0.'' @ replicate (nat (- n)) CHR ''0'' @ ds
         else (if k = 1 then ds else take 1 ds @ ''.'' @ drop 1 ds)
              @ ''e'' @ (if 0 \<le> n - 1 then ''+'' else ''-'') @ dec_digits \<bar>n - 1\<bar>)"

definition positive_toString :: "rat \<Rightarrow> string" where
  "positive_toString q =
     (let n0 = decimal_exponent q
      in if binary64 (10 powi n0) = binary64 q then format_digits ''1'' (n0 + 1)
         else format_digits (dec_digits (fst (shortest_digits q n0 [1..17]))) n0)"

fun Number_toString :: "jsnum \<Rightarrow> string" where
  "Number_toString NaN = ''NaN''"
| "Number_toString PosInf = ''Infinity''"
| "Number_toString NegInf = ''-Infinity''"
| "Number_toString (Fin q) = (if q = 0 then ''0'' else if q < 0 then ''-'' @ positive_toString (- q)
                               else positive_toString q)"

section \<open>JavaScript values\<close>

datatype jsval = JNull | JBool bool | JNum jsnum | JStr string

text \<open>
  The values a cell of a row can hold. A cell that may be missing is an optional value,
  \<open>None\<close> standing for \<open>undefined\<close>; \<open>Number\<close>, \<open>String\<close> and \<open>typeof\<close> take such a value.
\<close>

fun Number :: "jsval option \<Rightarrow> jsnum" where
  "Number None = NaN"
| "Number (Some JNull) = Fin 0"
| "Number (Some (JBool b)) = (if b then Fin 1 else Fin 0)"
| "Number (Some (JNum n)) = n"
| "Number (Some (JStr s)) = StringToNumber s"

fun String :: "jsval option \<Rightarrow> string" where
  "String None = ''undefined''"
| "String (Some JNull) = ''null''"
| "String (Some (JBool b)) = (if b then ''true'' else ''false'')"
| "String (Some (JNum n)) = Number_toString n"
| "String (Some (JStr s)) = s"

fun typeof :: "jsval option \<Rightarrow> string" where
  "typeof None = ''undefined''"
| "typeof (Some JNull) = ''object''"
| "typeof (Some (JBool b)) = ''boolean''"
| "typeof (Some (JNum n)) = ''number''"
| "typeof (Some (JStr s)) = ''string''"

section \<open>Objects and property order\<close>

text \<open>
  An object is the list of its own properties in creation order, with distinct keys.
  Enumeration (\<open>Object.keys\<close>, \<open>Object.entries\<close>) yields the array-index keys first, in
  ascending numeric order, and then the other keys in creation order.
\<close>

type_synonym 'a object = "(string \<times> 'a) list"

definition is_array_index :: "string \<Rightarrow> bool" where
  "is_array_index s \<longleftrightarrow> s \<noteq> [] \<and> list_all is_digit s \<and> (s = ''0'' \<or> hd s \<noteq> CHR ''0'')
     \<and> radix_value 10 s < 4294967295"

definition OrdinaryOwnPropertyKeys :: "'a object \<Rightarrow> 'a object" where
  "OrdinaryOwnPropertyKeys obj =
     sort_key (\<lambda>p. radix_value 10 (fst p)) (filter (\<lambda>p. is_array_index (fst p)) obj)
     @ filter (\<lambda>p. \<not> is_array_index (fst p)) obj"

definition Object_entries :: "'a object \<Rightarrow> (string \<times> 'a) list" where
  "Object_entries obj = OrdinaryOwnPropertyKeys obj"

definition Object_keys :: "'a object \<Rightarrow> string list" where
  "Object_keys obj = map fst (OrdinaryOwnPropertyKeys obj)"

text \<open>\<open>own obj key\<close> is the own property of that name, as \<open>hasOwnProperty\<close> tests it and
  \<open>Object.entries\<close> lists it; an assignment replaces the value of an existing key in place
  and appends a new key.\<close>

definition own :: "'a object \<Rightarrow> string \<Rightarrow> 'a option" where
  "own obj key = map_of obj key"

fun assign :: "'a object \<Rightarrow> string \<Rightarrow> 'a \<Rightarrow> 'a object" where
  "assign [] key v = [(key, v)]"
| "assign (p # ps) key v = (if fst p = key then (key, v) # ps else p # assign ps key v)"

section \<open>Reading a property of a row\<close>

text \<open>
  A row is a plain object: its cells are its own properties, and it inherits the members of
  \<open>Object.prototype\<close>. So \<open>row[key]\<close> is the cell of that name when the row has one;
  otherwise it is the inherited member of that name, a built-in function (the prototype
  object itself for \<open>__proto__\<close>); otherwise it is \<open>undefined\<close>. Of a built-in object the
  program only ever takes the string form, so a built-in is represented by that string; the
  text of a native function is the one V8 prints. \<open>has\<close> is the \<open>in\<close> operator.
\<close>

datatype jsread = Undefined | Value jsval | BuiltIn string

definition native_function :: "string \<Rightarrow> string" where
  "native_function name = ''function '' @ name @ ''() { [native code] }''"

definition Object_prototype :: "string \<Rightarrow> jsread" where
  "Object_prototype key =
     (if key = ''constructor'' then BuiltIn (native_function ''Object'')
      else if key = ''__proto__'' then BuiltIn ''[object Object]''
      else if key \<in> set [''hasOwnProperty'', ''isPrototypeOf'', ''propertyIsEnumerable'',
                          ''toLocaleString'', ''toString'', ''valueOf'',
                          ''__defineGetter__'', ''__defineSetter__'',
                          ''__lookupGetter__'', ''__lookupSetter__'']
        then BuiltIn (native_function key)
      else Undefined)"

definition read :: "jsval object \<Rightarrow> string \<Rightarrow> jsread" where
  "read obj key = (case own obj key of Some v \<Rightarrow> Value v | None \<Rightarrow> Object_prototype key)"

definition has :: "jsval object \<Rightarrow> string \<Rightarrow> bool" where
  "has obj key \<longleftrightarrow> read obj key \<noteq> Undefined"

text \<open>\<open>String(x)\<close> and \<open>Number(x)\<close> on the result of a read: a built-in function or object
  has no primitive value of its own and converts through its string form.\<close>

fun ToString :: "jsread \<Rightarrow> string" where
  "ToString Undefined = String None"
| "ToString (Value v) = String (Some v)"
| "ToString (BuiltIn form) = form"

fun ToNumber :: "jsread \<Rightarrow> jsnum" where
  "ToNumber Undefined = Number None"
| "ToNumber (Value v) = Number (Some v)"
| "ToNumber (BuiltIn form) = StringToNumber form"

section \<open>Library functions\<close>

text \<open>
  The functions of the utility library, as its documentation and its source describe them.
  An iteratee can throw; the exceptions of the program are the values of \<open>error\<close>.

  \<open>_.property(path)\<close> is the iteratee that \<open>_.groupBy\<close> builds from a column name. For a
  name without a dot or an opening bracket, and for every name that is a property of the
  row, it returns \<open>row[path]\<close>. Any other name the library parses as a path, which it follows
  from the row into the cell values and the built-in objects it meets; what that walk yields
  depends on the members the engine gives to those values, and it can throw. It is the
  parameter \<open>resolve\<close>.
\<close>

datatype error = XlsxError | EmptyFile | TypeError

definition property :: "(string \<Rightarrow> jsval object \<Rightarrow> error + jsread) \<Rightarrow> string \<Rightarrow> jsval object
    \<Rightarrow> error + jsread" where
  "property resolve path object =
     (if (CHR ''.'' \<notin> set path \<and> CHR ''['' \<notin> set path) \<or> has object path
      then Inr (read object path)
      else resolve path object)"

text \<open>
  \<open>_.groupBy\<close>: the key of an element is the result of the iteratee, converted to a property
  key; each group keeps its elements in the order of the collection, and the groups are
  created in the order in which their keys first occur. An exception of the iteratee ends
  the call.
\<close>

definition groupBy :: "'a list \<Rightarrow> ('a \<Rightarrow> error + string) \<Rightarrow> error + 'a list object" where
  "groupBy collection iteratee =
     foldl (\<lambda>acc v.
              case acc of Inl e \<Rightarrow> Inl e
              | Inr result \<Rightarrow>
                  (case iteratee v of Inl e \<Rightarrow> Inl e
                   | Inr key \<Rightarrow>
                       Inr (case own result key of
                              Some items \<Rightarrow> assign result key (items @ [v])
                            | None \<Rightarrow> assign result key [v])))
       (Inr []) collection"

text \<open>\<open>_.sumBy\<close>: 0 for an empty array, otherwise the running sum from the first element.\<close>

definition sumBy :: "'a list \<Rightarrow> ('a \<Rightarrow> jsnum) \<Rightarrow> jsnum" where
  "sumBy array iteratee =
     (case array of [] \<Rightarrow> Fin 0
      | a # as \<Rightarrow> foldl (\<lambda>result current. js_add result (iteratee current)) (iteratee a) as)"

text \<open>\<open>_.uniq\<close> keeps the first occurrence of each value; \<open>_.intersection\<close> returns the
  unique values of the first array that occur in all the others, in the order of the first.\<close>

definition uniq :: "'a list \<Rightarrow> 'a list" where
  "uniq array = foldl (\<lambda>result v. if v \<in> set result then result else result @ [v]) [] array"

fun intersection :: "'a list list \<Rightarrow> 'a list" where
  "intersection [] = []"
| "intersection (array # arrays) = uniq (filter (\<lambda>v. list_all (\<lambda>other. v \<in> set other) arrays) array)"

section \<open>Column classification\<close>

text \<open>
  The workbook reader is outside the program: its outcome is either an exception or the row
  objects of the first sheet. \<open>Date.parse\<close> accepts implementation-defined formats, so the
  set of strings it parses is the parameter \<open>parses\<close>; the identifier drawn for the new
  dataset and the file name are parameters as well.
\<close>

type_synonym DataRow = "jsval object"

datatype xlsx_outcome = ReadThrows | SheetRows "DataRow list"

definition isNum :: "jsval \<Rightarrow> bool" where
  "isNum val \<longleftrightarrow> \<not> isNaN (Number (Some val)) \<and> typeof (Some val) \<noteq> ''boolean''"

definition toString :: "jsval \<Rightarrow> error + string" where
  "toString val = (case val of JNull \<Rightarrow> Inl TypeError | _ \<Rightarrow> Inr (String (Some val)))"

definition isDate :: "(string \<Rightarrow> bool) \<Rightarrow> jsval \<Rightarrow> error + bool" where
  "isDate parses val =
     (if \<not> parses (String (Some val)) then Inr False
      else case toString val of Inl e \<Rightarrow> Inl e
           | Inr s \<Rightarrow> if CHR ''-'' \<in> set s then Inr True
                      else (case toString val of Inl e \<Rightarrow> Inl e
                            | Inr s' \<Rightarrow> Inr (CHR ''/'' \<in> set s')))"

fun classify :: "(string \<Rightarrow> bool) \<Rightarrow> (string \<times> jsval) list
    \<Rightarrow> string list \<times> string list \<times> string list
    \<Rightarrow> error + string list \<times> string list \<times> string list" where
  "classify parses [] acc = Inr acc"
| "classify parses ((col, val) # rest) (numericColumns, dateColumns, textColumns) =
     (case isDate parses val of Inl e \<Rightarrow> Inl e
      | Inr is_date \<Rightarrow>
          if isNum val then classify parses rest (numericColumns @ [col], dateColumns, textColumns)
          else if is_date then classify parses rest (numericColumns, dateColumns @ [col], textColumns)
          else classify parses rest (numericColumns, dateColumns, textColumns @ [col]))"

text \<open>The classes in words: a value is numeric when it converts to a number other than
  \<open>NaN\<close> and is not a boolean; it is a date when its string form parses as a date and
  contains a hyphen or a slash; numeric is tested before date, and date before text.\<close>

datatype column_class = Numeric | Date | Text

definition is_numeric :: "jsval \<Rightarrow> bool" where
  "is_numeric val \<longleftrightarrow> Number (Some val) \<noteq> NaN \<and> (case val of JBool b \<Rightarrow> False | _ \<Rightarrow> True)"

definition is_date :: "(string \<Rightarrow> bool) \<Rightarrow> jsval \<Rightarrow> bool" where
  "is_date parses val \<longleftrightarrow> parses (String (Some val))
     \<and> (CHR ''-'' \<in> set (String (Some val)) \<or> CHR ''/'' \<in> set (String (Some val)))"

definition class_of :: "(string \<Rightarrow> bool) \<Rightarrow> jsval \<Rightarrow> column_class" where
  "class_of parses val =
     (if is_numeric val then Numeric else if is_date parses val then Date else Text)"

definition columns_of_class :: "(string \<Rightarrow> bool) \<Rightarrow> column_class \<Rightarrow> DataRow \<Rightarrow> string list" where
  "columns_of_class parses cl row =
     map fst (filter (\<lambda>(col, val). class_of parses val = cl) (Object_entries row))"

section \<open>Data model\<close>

record Dataset =
  dataset_id :: string
  dataset_name :: string
  rows :: "DataRow list"
  columns :: "string list"
  numericColumns :: "string list"
  dateColumns :: "string list"
  textColumns :: "string list"

record Layout =
  layout_i :: string
  layout_x :: jsnum
  layout_y :: jsnum
  layout_w :: jsnum
  layout_h :: jsnum
  minW :: "jsnum option"
  minH :: "jsnum option"

datatype chart_kind = bar | line | pie | timeline | radar

record WidgetItem =
  widget_i :: string
  datasetId :: string
  widget_type :: chart_kind
  title :: string
  config :: "jsval object"

type_synonym selections = "string list object"

record Board =
  board_id :: string
  board_name :: string
  layout :: "Layout list"
  widgets :: "WidgetItem list"
  filters :: "selections option"
  createdAt :: jsnum

section \<open>Ingestion: \<open>processExcelFile\<close>\<close>

definition processExcelFile :: "(string \<Rightarrow> bool) \<Rightarrow> string \<Rightarrow> string \<Rightarrow> xlsx_outcome
    \<Rightarrow> error + Dataset" where
  "processExcelFile parses new_id file_name outcome =
     (case outcome of ReadThrows \<Rightarrow> Inl XlsxError
      | SheetRows jsonData \<Rightarrow>
          (case jsonData of [] \<Rightarrow> Inl EmptyFile
           | sampleRow # _ \<Rightarrow>
               (case classify parses (Object_entries sampleRow) ([], [], []) of
                  Inl e \<Rightarrow> Inl e
                | Inr (numeric, date, text) \<Rightarrow>
                    Inr \<lparr> dataset_id = new_id, dataset_name = file_name, rows = jsonData,
                          columns = Object_keys sampleRow,
                          numericColumns = numeric, dateColumns = date,
                          textColumns = (if text \<noteq> [] then text
                                         else Object_keys sampleRow) \<rparr>)))"

section \<open>Aggregation: \<open>aggregateData\<close>\<close>

text \<open>
  A result \<open>{name, value}\<close> is the pair of the group key and the value. \<open>category_key\<close> is
  the key under which \<open>_.groupBy(data, categoryCol)\<close> files a row: the string form of what
  the property iteratee returns. \<open>aggregate\<close> is what the callback computes for the rows of
  one group, \<open>round2\<close> the rounding \<open>Math.round(value * 100) / 100\<close> applied to it, and
  \<open>or_zero\<close> is \<open>x || 0\<close> on numbers. The call fails when the iteratee throws.
\<close>

datatype operation = sum_op | count_op | avg_op

definition or_zero :: "jsnum \<Rightarrow> jsnum" where
  "or_zero n = (if n = NaN \<or> n = Fin 0 then Fin 0 else n)"

definition round2 :: "jsnum \<Rightarrow> jsnum" where
  "round2 v = js_div (Math_round (js_mul v (Fin 100))) (Fin 100)"

definition aggregate :: "DataRow list \<Rightarrow> string \<Rightarrow> operation \<Rightarrow> jsnum" where
  "aggregate items valueCol operation =
     (if operation = count_op then Fin (of_nat (length items))
      else let s = sumBy items (\<lambda>item. or_zero (ToNumber (read item valueCol)))
           in if operation = avg_op then js_div s (Fin (of_nat (length items))) else s)"

definition category_key :: "(string \<Rightarrow> DataRow \<Rightarrow> error + jsread) \<Rightarrow> string \<Rightarrow> DataRow
    \<Rightarrow> error + string" where
  "category_key resolve categoryCol row =
     (case property resolve categoryCol row of Inl e \<Rightarrow> Inl e | Inr v \<Rightarrow> Inr (ToString v))"

definition aggregateData :: "(string \<Rightarrow> DataRow \<Rightarrow> error + jsread) \<Rightarrow> DataRow list \<Rightarrow> string
    \<Rightarrow> string \<Rightarrow> operation \<Rightarrow> error + (string \<times> jsnum) list" where
  "aggregateData resolve data categoryCol valueCol operation =
     (case groupBy data (category_key resolve categoryCol) of
        Inl e \<Rightarrow> Inl e
      | Inr grouped \<Rightarrow>
          Inr (map (\<lambda>(key, items). (key, round2 (aggregate items valueCol operation)))
                 (Object_entries grouped)))"

section \<open>Filter evaluation: \<open>getFilteredRows\<close>\<close>

text \<open>
  \<open>passes\<close> is the test that the code runs over the entries of one mapping, \<open>row_passes\<close> the
  callback given to \<open>ds.rows.filter\<close>: the global slicers first, then the board filters
  when the board has them.
\<close>

definition passes :: "DataRow \<Rightarrow> selections \<Rightarrow> bool" where
  "passes row sel =
     list_all (\<lambda>(col, selectedVals).
        if selectedVals = [] then True
        else if read row col = Undefined then True
        else ToString (read row col) \<in> set selectedVals) (Object_entries sel)"

definition row_passes :: "selections \<Rightarrow> selections option \<Rightarrow> DataRow \<Rightarrow> bool" where
  "row_passes slicers boardFilters row =
     (if \<not> passes row slicers then False
      else case boardFilters of
             Some local \<Rightarrow> if \<not> passes row local then False else True
           | None \<Rightarrow> True)"

definition getFilteredRows :: "Dataset list \<Rightarrow> selections \<Rightarrow> selections option \<Rightarrow> string
    \<Rightarrow> DataRow list" where
  "getFilteredRows datasets slicers boardFilters i =
     (case find (\<lambda>d. dataset_id d = i) datasets of
        None \<Rightarrow> []
      | Some ds \<Rightarrow> filter (row_passes slicers boardFilters) (rows ds))"

text \<open>The selection lists in force: those of the global mapping and of the board-local
  mapping, when there is one.\<close>

definition selected :: "selections \<Rightarrow> selections option \<Rightarrow> (string \<times> string list) set" where
  "selected global local = set global \<union> (case local of None \<Rightarrow> {} | Some l \<Rightarrow> set l)"

section \<open>Application state\<close>

text \<open>
  The part of the state of \<open>App\<close> that file import and dataset deletion read and write. The
  alert and the console message of a failed import are recorded in the state. The
  confirmation dialog holds the action to run on confirmation: \<open>removeDataset\<close> stores it,
  with the datasets and the active dataset it captured, and \<open>handleConfirmAction\<close> runs it.
\<close>

datatype alert = FileParseFailed

datatype confirm_action = NoAction | RemoveDatasetAction string "Dataset list" "string option"

record App =
  datasets :: "Dataset list"
  activeDatasetId :: "string option"
  boards :: "Board list"
  slicers :: selections
  confirm_isOpen :: bool
  confirm_onConfirm :: confirm_action
  alerts :: "alert list"
  console_errors :: "error list"

definition commonColumns :: "Dataset list \<Rightarrow> string list" where
  "commonColumns ds =
     (case ds of [] \<Rightarrow> []
      | [d] \<Rightarrow> columns d
      | _ \<Rightarrow> intersection (map columns ds))"

definition getBoardSpecificData_columns :: "Dataset list \<Rightarrow> Board \<Rightarrow> string list" where
  "getBoardSpecificData_columns ds board =
     (let usedDatasetIds = set (map datasetId (widgets board));
          usedDatasets = filter (\<lambda>d. dataset_id d \<in> usedDatasetIds) ds
      in if usedDatasets = [] then [] else intersection (map columns usedDatasets))"

text \<open>The datasets a board uses, and the identifier discipline of a board: widget
  identifiers are pairwise distinct and the layout entries carry the same identifiers.\<close>

definition usedDatasets :: "Dataset list \<Rightarrow> Board \<Rightarrow> Dataset list" where
  "usedDatasets ds board = filter (\<lambda>d. dataset_id d \<in> set (map datasetId (widgets board))) ds"

definition layout_matches_widgets :: "Board \<Rightarrow> bool" where
  "layout_matches_widgets board \<longleftrightarrow>
     set (map layout_i (layout board)) = set (map widget_i (widgets board))"

definition widget_ids_distinct :: "Board \<Rightarrow> bool" where
  "widget_ids_distinct board \<longleftrightarrow> distinct (map widget_i (widgets board))"

definition handleFileChange :: "(string \<Rightarrow> bool) \<Rightarrow> string \<Rightarrow> (string \<times> xlsx_outcome) option
    \<Rightarrow> App \<Rightarrow> App" where
  "handleFileChange parses new_id file st =
     (case file of None \<Rightarrow> st
      | Some (file_name, outcome) \<Rightarrow>
          (case processExcelFile parses new_id file_name outcome of
             Inr newData \<Rightarrow> st\<lparr> datasets := datasets st @ [newData],
                                activeDatasetId := Some (dataset_id newData) \<rparr>
           | Inl err \<Rightarrow> st\<lparr> alerts := alerts st @ [FileParseFailed],
                            console_errors := console_errors st @ [err] \<rparr>))"

definition removeDataset :: "string \<Rightarrow> App \<Rightarrow> App" where
  "removeDataset i st =
     st\<lparr> confirm_isOpen := True,
         confirm_onConfirm := RemoveDatasetAction i (datasets st) (activeDatasetId st) \<rparr>"

definition remove_widgets_of :: "string \<Rightarrow> Board \<Rightarrow> Board" where
  "remove_widgets_of i board =
     (let remainingWidgets = filter (\<lambda>w. datasetId w \<noteq> i) (widgets board);
          remainingWidgetIds = set (map widget_i remainingWidgets);
          remainingLayout = filter (\<lambda>l. layout_i l \<in> remainingWidgetIds) (layout board)
      in board\<lparr> widgets := remainingWidgets, layout := remainingLayout \<rparr>)"

fun run_action :: "confirm_action \<Rightarrow> App \<Rightarrow> App" where
  "run_action NoAction st = st"
| "run_action (RemoveDatasetAction i captured_datasets captured_active) st =
     (let newDatasets = filter (\<lambda>d. dataset_id d \<noteq> i) captured_datasets
      in st\<lparr> datasets := newDatasets,
             boards := map (remove_widgets_of i) (boards st),
             activeDatasetId :=
               (if captured_active = Some i
                then (case newDatasets of [] \<Rightarrow> None | d # _ \<Rightarrow> Some (dataset_id d))
                else activeDatasetId st) \<rparr>)"

definition handleConfirmAction :: "App \<Rightarrow> App" where
  "handleConfirmAction st = (run_action (confirm_onConfirm st) st)\<lparr> confirm_isOpen := False \<rparr>"

section \<open>Notions used to state the aggregation results\<close>

text \<open>
  The keys of a row sequence, one per row and in the order of the rows, up to the first row
  whose key lookup throws; the rows of one group; and the order in which the keys of an
  object are enumerated: the array indices in ascending numeric order and then the other
  keys as they stand. An ordinary column name has no dot and no opening bracket and does
  not name a member of \<open>Object.prototype\<close>. \<open>numeric_or_zero\<close> is the numeric value of a
  cell, 0 when the cell is missing or not numeric; \<open>js_sum\<close> adds doubles from left to right;
  \<open>half_up_2\<close> is the rounding of an exact value to two decimals, a tie going to the larger
  neighbour.
\<close>

fun category_keys :: "(string \<Rightarrow> DataRow \<Rightarrow> error + jsread) \<Rightarrow> string \<Rightarrow> DataRow list
    \<Rightarrow> error + string list" where
  "category_keys resolve categoryCol [] = Inr []"
| "category_keys resolve categoryCol (row # data) =
     (case category_key resolve categoryCol row of Inl e \<Rightarrow> Inl e
      | Inr key \<Rightarrow> (case category_keys resolve categoryCol data of Inl e \<Rightarrow> Inl e
                    | Inr keys \<Rightarrow> Inr (key # keys)))"

definition group_of :: "(string \<Rightarrow> DataRow \<Rightarrow> error + jsread) \<Rightarrow> DataRow list \<Rightarrow> string \<Rightarrow> string
    \<Rightarrow> DataRow list" where
  "group_of resolve data categoryCol key =
     filter (\<lambda>row. category_key resolve categoryCol row = Inr key) data"

definition own_key_order :: "string list \<Rightarrow> string list" where
  "own_key_order ks = sort_key (radix_value 10) (filter is_array_index ks)
                      @ filter (\<lambda>k. \<not> is_array_index k) ks"

definition ordinary_name :: "string \<Rightarrow> bool" where
  "ordinary_name col \<longleftrightarrow> CHR ''.'' \<notin> set col \<and> CHR ''['' \<notin> set col
     \<and> Object_prototype col = Undefined"

definition numeric_or_zero :: "jsval option \<Rightarrow> jsnum" where
  "numeric_or_zero v = (case Number v of NaN \<Rightarrow> Fin 0 | n \<Rightarrow> n)"

definition js_sum :: "jsnum list \<Rightarrow> jsnum" where
  "js_sum ns = (case ns of [] \<Rightarrow> Fin 0 | n # ns' \<Rightarrow> foldl js_add n ns')"

definition half_up_2 :: "rat \<Rightarrow> rat" where
  "half_up_2 a = of_int \<lfloor>a * 100 + 1 / 2\<rfloor> / 100"

section \<open>Initial and example states\<close>

text \<open>The state the application starts in (one empty default board), the shape of the
  widgets and layout entries that \<open>handleSaveWidget\<close> adds, a date parser that accepts the one
  date string of the examples below, and a path lookup that follows the one path of the
  examples, \<open>name.length\<close>, to the length of the string in the cell \<open>name\<close>.\<close>

definition initial_App :: "jsnum \<Rightarrow> App" where
  "initial_App now =
     \<lparr> datasets = [], activeDatasetId = None,
       boards = [\<lparr> board_id = ''default'', board_name = ''default board'', layout = [],
                   widgets = [], filters = Some [], createdAt = now \<rparr>],
       slicers = [], confirm_isOpen = False, confirm_onConfirm = NoAction,
       alerts = [], console_errors = [] \<rparr>"

definition example_parses :: "string \<Rightarrow> bool" where
  "example_parses s \<longleftrightarrow> s = ''2024-01-05''"

definition example_resolve :: "string \<Rightarrow> DataRow \<Rightarrow> error + jsread" where
  "example_resolve path row =
     (if path = ''name.length''
      then (case own row ''name'' of
              Some (JStr s) \<Rightarrow> Inr (Value (JNum (Fin (of_int (int (length s))))))
            | _ \<Rightarrow> Inr Undefined)
      else Inr Undefined)"

definition example_widget :: "string \<Rightarrow> string \<Rightarrow> WidgetItem" where
  "example_widget i ds =
     \<lparr> widget_i = i, datasetId = ds, widget_type = bar, title = ''chart'', config = [] \<rparr>"

definition example_layout :: "string \<Rightarrow> Layout" where
  "example_layout i =
     \<lparr> layout_i = i, layout_x = Fin 0, layout_y = PosInf, layout_w = Fin 4, layout_h = Fin 6,
       minW = Some (Fin 2), minH = Some (Fin 3) \<rparr>"

definition example_dataset :: "string \<Rightarrow> Dataset" where
  "example_dataset i =
     \<lparr> dataset_id = i, dataset_name = ''data.xlsx'', rows = [[(''region'', JStr ''EU'')]],
       columns = [''region''], numericColumns = [], dateColumns = [],
       textColumns = [''region''] \<rparr>"

section \<open>Rounding to binary64\<close>

lemma bitlen_nonneg: "0 \<le> bitlen k"
  by (induction k rule: bitlen.induct) (subst bitlen.simps, simp)

lemma bitlen_pos: "0 < k \<Longrightarrow> 0 < bitlen k"
  using bitlen_nonneg [of "k div 2"] by (subst bitlen.simps) simp

lemma bitlen_bounds:
  "0 < k \<Longrightarrow> 2 ^ nat (bitlen k - 1) \<le> k \<and> k < 2 ^ nat (bitlen k)"
proof (induction k rule: bitlen.induct)
  case (1 k)
  show ?case
  proof (cases "k = 1")
    case True
    then show ?thesis by (subst bitlen.simps, subst bitlen.simps, simp)+
  next
    case False
    with "1.prems" have k2: "0 < k div 2" by simp
    with "1.IH" "1.prems" have ih: "2 ^ nat (bitlen (k div 2) - 1) \<le> k div 2"
      "k div 2 < 2 ^ nat (bitlen (k div 2))" by simp_all
    have bl: "bitlen k = 1 + bitlen (k div 2)"
      using "1.prems" by (subst bitlen.simps) simp
    have pos: "0 < bitlen (k div 2)" using k2 by (rule bitlen_pos)
    then have n: "nat (bitlen k) = Suc (nat (bitlen (k div 2)))"
      "nat (bitlen k - 1) = Suc (nat (bitlen (k div 2) - 1))"
      using bl by simp_all
    from ih show ?thesis unfolding n by (simp; linarith)
  qed
qed

lemma bitlen_powi:
  assumes "0 < k"
  shows "(2::rat) powi (bitlen k - 1) \<le> of_int k" "of_int k < (2::rat) powi (bitlen k)"
proof -
  from bitlen_bounds [OF assms] have a: "2 ^ nat (bitlen k - 1) \<le> k" and b: "k < 2 ^ nat (bitlen k)"
    by simp_all
  have p: "0 < bitlen k" using assms by (rule bitlen_pos)
  from a have "(of_int (2 ^ nat (bitlen k - 1)) :: rat) \<le> of_int k"
    by (simp only: of_int_le_iff)
  then show "(2::rat) powi (bitlen k - 1) \<le> of_int k"
    using p by (simp add: power_int_def)
  from b have "(of_int k :: rat) < of_int (2 ^ nat (bitlen k))"
    by (simp only: of_int_less_iff)
  then show "of_int k < (2::rat) powi (bitlen k)"
    using p by (simp add: power_int_def)
qed

lemma ilog2_bounds:
  assumes "0 < a"
  shows "2 powi (ilog2 a) \<le> a \<and> a < 2 powi (ilog2 a + 1)"
proof -
  obtain p d where pd: "quotient_of a = (p, d)" by (cases "quotient_of a")
  then have d: "0 < d" and a: "a = of_int p / of_int d"
    by (auto simp: quotient_of_denom_pos quotient_of_div)
  with assms have p: "0 < p"
    by (simp add: zero_less_divide_iff)
  note bp = bitlen_powi [OF p] and bd = bitlen_powi [OF d]
  let ?e = "bitlen p - bitlen d"
  have "of_int p / of_int d < (2::rat) powi (bitlen p) / 2 powi (bitlen d - 1)"
    using p d bp bd by (intro frac_less) simp_all
  also have "\<dots> = 2 powi (bitlen p - (bitlen d - 1))"
    by (simp add: power_int_diff)
  also have "bitlen p - (bitlen d - 1) = ?e + 1" by simp
  finally have up: "a < 2 powi (?e + 1)" by (simp add: a)
  have "(2::rat) powi (bitlen p - 1) / 2 powi (bitlen d) \<le> of_int p / of_int d"
    using p d bp bd by (intro frac_le) simp_all
  moreover have "(2::rat) powi (bitlen p - 1) / 2 powi (bitlen d) = 2 powi (bitlen p - 1 - bitlen d)"
    by (simp add: power_int_diff)
  moreover have "bitlen p - 1 - bitlen d = ?e - 1" by simp
  ultimately have lo: "2 powi (?e - 1) \<le> a" by (simp add: a)
  show ?thesis
    using up lo pd by (auto simp: ilog2_def Let_def)
qed

lemma powi2_less_cancel: "(2::rat) powi m < 2 powi n \<Longrightarrow> m < n"
proof (rule ccontr)
  assume "(2::rat) powi m < 2 powi n" and "\<not> m < n"
  then have "n \<le> m" by simp
  then have "(2::rat) powi n \<le> 2 powi m" by (intro power_int_increasing) simp_all
  with \<open>(2::rat) powi m < 2 powi n\<close> show False by simp
qed

lemma ilog2_unique:
  assumes "2 powi e \<le> a" "a < 2 powi (e + 1)"
  shows "ilog2 a = e"
proof -
  have "(0::rat) < 2 powi e" by simp
  with assms have a: "0 < a" by linarith
  from ilog2_bounds [OF a] have b: "2 powi (ilog2 a) \<le> a" "a < 2 powi (ilog2 a + 1)"
    by simp_all
  from b(1) assms(2) have "(2::rat) powi (ilog2 a) < 2 powi (e + 1)" by linarith
  then have "ilog2 a < e + 1" by (rule powi2_less_cancel)
  moreover from assms(1) b(2) have "(2::rat) powi e < 2 powi (ilog2 a + 1)" by linarith
  then have "e < ilog2 a + 1" by (rule powi2_less_cancel)
  ultimately show ?thesis by simp
qed

lemma round_half_even_eqI:
  assumes "of_int m - 1 / 2 < x" "x < of_int m + 1 / 2"
  shows "round_half_even x = m"
proof -
  have "\<lfloor>x\<rfloor> = m \<or> \<lfloor>x\<rfloor> = m - 1" using assms by linarith
  then show ?thesis
  proof
    assume f: "\<lfloor>x\<rfloor> = m"
    then show ?thesis using assms by (simp add: round_half_even_def Let_def)
  next
    assume f: "\<lfloor>x\<rfloor> = m - 1"
    then show ?thesis using assms by (simp add: round_half_even_def Let_def)
  qed
qed

lemma round_half_even_of_int: "round_half_even (of_int n) = n"
  by (rule round_half_even_eqI) simp_all

lemma binary64_eqI:
  assumes "2 powi e \<le> q" "q < 2 powi (e + 1)" "- 1022 \<le> e" "e < 1023"
    and "of_int m - 1 / 2 < q * 2 powi (52 - e)" "q * 2 powi (52 - e) < of_int m + 1 / 2"
  shows "binary64 q = Fin (of_int m * 2 powi (e - 52))"
proof -
  have "(0::rat) < 2 powi e" by simp
  with assms(1) have q: "0 < q" by linarith
  have il: "ilog2 \<bar>q\<bar> = e" using assms(1,2) q by (intro ilog2_unique) simp_all
  have inv: "q / 2 powi (e - 52) = q * 2 powi (52 - e)"
    by (simp add: power_int_diff field_simps)
  have rnd: "round_half_even (q / 2 powi (e - 52)) = m"
    unfolding inv using assms(5,6) by (rule round_half_even_eqI)
  have "of_int m < q * 2 powi (52 - e) + 1 / 2" using assms(5) by linarith
  also have "q * 2 powi (52 - e) < 2 powi (e + 1) * 2 powi (52 - e)"
    using assms(2) by (intro mult_strict_right_mono) simp_all
  also have "(2::rat) powi (e + 1) * 2 powi (52 - e) = 2 powi 53"
    by (simp flip: power_int_add)
  finally have "(of_int m :: rat) < of_int (2 ^ 53 + 1)" by simp
  then have "m < 2 ^ 53 + 1" by (simp only: of_int_less_iff)
  then have "(of_int m :: rat) \<le> 2 powi 53" by simp
  then have "of_int m * 2 powi (e - 52) \<le> (2::rat) powi 53 * 2 powi (e - 52)"
    by (intro mult_right_mono) simp_all
  also have "(2::rat) powi 53 * 2 powi (e - 52) = 2 powi (53 + (e - 52))"
    by (rule power_int_add [symmetric]) simp
  also have "53 + (e - 52) = e + 1" by simp
  also have "(2::rat) powi (e + 1) < 2 powi 1024"
    using assms(4) by (intro power_int_strict_increasing) simp_all
  finally have small: "\<not> 2 powi 1024 \<le> of_int m * (2::rat) powi (e - 52)" by simp
  have mx: "max e (- 1022) = e" using assms(3) by simp
  show ?thesis
    using q il rnd small mx by (simp add: binary64_def Let_def)
qed

lemma binary64_neg: "binary64 (- q) = js_neg (binary64 q)"
  by (simp add: binary64_def Let_def)

lemma binary64_of_int_pos:
  assumes "0 < k" "k \<le> 2 ^ 53"
  shows "binary64 (of_int k) = Fin (of_int k)"
proof -
  let ?q = "of_int k :: rat"
  let ?e = "ilog2 ?q"
  have q: "0 < ?q" using assms by simp
  from ilog2_bounds [OF q] have b: "2 powi ?e \<le> ?q" "?q < 2 powi (?e + 1)" by simp_all
  have "(2::rat) powi 0 \<le> ?q" using assms by simp
  with b(2) have "(2::rat) powi 0 < 2 powi (?e + 1)" by linarith
  then have e0: "0 \<le> ?e" using powi2_less_cancel [of 0 "?e + 1"] by simp
  have "?q \<le> 2 powi 53" using assms(2) of_int_le_iff [of k "2 ^ 53", where ?'a = rat] by simp
  with b(1) have "(2::rat) powi ?e < 2 powi 54"
    using power_int_strict_increasing [of 53 54 "2::rat"] by simp
  then have e53: "?e \<le> 53" using powi2_less_cancel [of ?e 54] by simp
  have "\<exists>n. ?q / 2 powi (?e - 52) = of_int n"
  proof (cases "?e \<le> 52")
    case True
    then have "?q / 2 powi (?e - 52) = ?q * 2 ^ nat (52 - ?e)"
      by (simp add: power_int_def field_simps)
    also have "\<dots> = of_int (k * 2 ^ nat (52 - ?e))" by simp
    finally show ?thesis by blast
  next
    case False
    with e53 have e: "?e = 53" by simp
    with b(1) \<open>?q \<le> 2 powi 53\<close> have "?q = 2 powi 53" by simp
    with e have "?q / 2 powi (?e - 52) = of_int (2 ^ 52)" by simp
    then show ?thesis by blast
  qed
  then obtain n where n: "?q / 2 powi (?e - 52) = of_int n" by blast
  have "of_int n * 2 powi (?e - 52) = ?q"
    using n [symmetric] by simp
  then have r: "of_int (round_half_even (?q / 2 powi (?e - 52))) * 2 powi (?e - 52) = ?q"
    by (simp add: n round_half_even_of_int)
  have "?q < 2 powi 1024"
    using \<open>?q \<le> 2 powi 53\<close> power_int_strict_increasing [of 53 1024 "2::rat"] by simp
  then have small: "\<not> 2 powi 1024 \<le> ?q" by simp
  have mx: "max ?e (- 1022) = ?e" using e0 by simp
  show ?thesis
    using q assms(1) r small mx unfolding binary64_def Let_def by simp
qed

lemma binary64_of_int:
  assumes "\<bar>k\<bar> \<le> 2 ^ 53"
  shows "binary64 (of_int k) = Fin (of_int k)"
proof (cases "k = 0")
  case True
  then show ?thesis by (simp add: binary64_def)
next
  case False
  show ?thesis
  proof (cases "0 < k")
    case True
    with assms show ?thesis by (intro binary64_of_int_pos) simp_all
  next
    case neg: False
    with False assms have "binary64 (of_int (- k)) = Fin (of_int (- k))"
      by (intro binary64_of_int_pos) simp_all
    then have "js_neg (binary64 (of_int k)) = Fin (- of_int k)"
      by (simp add: binary64_neg)
    then show ?thesis by (cases "binary64 (rat_of_int k)") simp_all
  qed
qed

lemma floor_rat_numeral [simp]:
  "\<lfloor>(numeral a :: rat) / numeral b\<rfloor> = numeral a div numeral b"
  by (metis floor_divide_of_int_eq of_int_numeral)

lemma floor_rat_neg_numeral [simp]:
  "\<lfloor>- (numeral a :: rat) / numeral b\<rfloor> = - numeral a div numeral b"
  by (metis floor_divide_of_int_eq of_int_numeral of_int_minus)

lemma binary64_numeral [simp]:
  "numeral n \<le> (9007199254740992::int) \<Longrightarrow> binary64 (numeral n) = Fin (numeral n)"
  using binary64_of_int [of "numeral n"] by simp

lemma binary64_0 [simp]: "binary64 0 = Fin 0"
  by (simp add: binary64_def)

lemma binary64_1 [simp]: "binary64 1 = Fin 1"
  using binary64_of_int [of 1] by simp


section \<open>Evaluation rules\<close>

lemmas literal_defs = StringToNumber_def trim_def is_StrWhiteSpaceChar_def
  NonDecimalIntegerLiteral_def radix_literal_def StrDecimalLiteral_def strip_sign_def
  StrUnsignedDecimalLiteral_def ExponentPart_def SignedInteger_def is_digit_def digit_of_def
  hex_digit_of_def radix_value_def Let_def

lemmas object_defs = own_key_order_def uniq_def own_def
  is_array_index_def is_digit_def digit_of_def radix_value_def hex_digit_of_def

lemmas read_defs = read_def own_def has_def Object_prototype_def native_function_def
  property_def category_key_def

section \<open>Property enumeration\<close>

lemma set_OrdinaryOwnPropertyKeys: "set (OrdinaryOwnPropertyKeys obj) = set obj"
  by (auto simp: OrdinaryOwnPropertyKeys_def)

lemma set_Object_entries: "set (Object_entries obj) = set obj"
  by (simp add: Object_entries_def set_OrdinaryOwnPropertyKeys)

lemma own_None_iff: "own obj key = None \<longleftrightarrow> key \<notin> fst ` set obj"
  by (simp add: own_def map_of_eq_None_iff)

section \<open>Reading a property\<close>

lemma read_own: "key \<in> fst ` set obj \<Longrightarrow> read obj key = Value (the (own obj key))"
  using own_None_iff [of obj key] by (cases "own obj key") (auto simp: read_def)

lemma read_inherited: "key \<notin> fst ` set obj \<Longrightarrow> read obj key = Object_prototype key"
  using own_None_iff [of obj key] by (cases "own obj key") (auto simp: read_def)

lemma read_Undefined_iff:
  "read obj key = Undefined \<longleftrightarrow> key \<notin> fst ` set obj \<and> Object_prototype key = Undefined"
  using own_None_iff [of obj key] by (cases "own obj key") (auto simp: read_def)

lemma ToString_read_own: "key \<in> fst ` set obj \<Longrightarrow> ToString (read obj key) = String (own obj key)"
  using own_None_iff [of obj key] by (cases "own obj key") (auto simp: read_def)

lemma ToString_read_ordinary:
  "Object_prototype key = Undefined \<Longrightarrow> ToString (read obj key) = String (own obj key)"
  by (cases "own obj key") (simp_all add: read_def)

section \<open>Filter evaluation\<close>

lemma passes_iff:
  "passes row sel \<longleftrightarrow>
     (\<forall>(col, selectedVals) \<in> set sel. selectedVals \<noteq> [] \<longrightarrow>
        read row col = Undefined \<or> ToString (read row col) \<in> set selectedVals)"
  unfolding passes_def list_all_iff set_Object_entries
  by (auto split: prod.splits)

lemma row_passes_iff:
  "row_passes global local row \<longleftrightarrow>
      (\<forall>(col, selectedVals) \<in> selected global local. selectedVals \<noteq> [] \<longrightarrow>
         read row col = Undefined \<or> ToString (read row col) \<in> set selectedVals)"
  unfolding row_passes_def passes_iff selected_def
  by (cases local) auto

lemma row_passes_own:
  assumes "\<forall>(col, selectedVals) \<in> selected global local. selectedVals \<noteq> [] \<longrightarrow>
             col \<in> fst ` set row \<or> Object_prototype col = Undefined"
  shows "row_passes global local row \<longleftrightarrow>
      (\<forall>(col, selectedVals) \<in> selected global local. selectedVals \<noteq> [] \<longrightarrow>
         col \<notin> fst ` set row \<or> String (own row col) \<in> set selectedVals)"
proof -
  have "read row col = Undefined \<or> ToString (read row col) \<in> set selectedVals
      \<longleftrightarrow> col \<notin> fst ` set row \<or> String (own row col) \<in> set selectedVals"
    if "(col, selectedVals) \<in> selected global local" "selectedVals \<noteq> []" for col selectedVals
  proof (cases "col \<in> fst ` set row")
    case True
    then show ?thesis by (simp add: read_Undefined_iff ToString_read_own)
  next
    case False
    with assms that have "Object_prototype col = Undefined" by blast
    with False show ?thesis by (simp add: read_Undefined_iff)
  qed
  then show ?thesis unfolding row_passes_iff by blast
qed

text \<open>
  Claim C1, amended. Take a row and two mappings such that every column with a non-empty
  selection list either is a column of the row or is not named like a member of
  \<open>Object.prototype\<close>. The row passes the filter exactly when, for every column with a
  non-empty selection list in the global or in the board-local mapping, the row lacks the
  column or the string form of its value is in the list. Empty selection lists do not
  constrain: a row that meets only empty lists passes. The rows that \<open>getFilteredRows\<close>
  returns for a dataset are its rows that pass.
\<close>

theorem filter_evaluation:
  "((\<forall>(col, selectedVals) \<in> selected global local. selectedVals \<noteq> [] \<longrightarrow>
        col \<in> fst ` set row \<or> Object_prototype col = Undefined) \<longrightarrow>
     (row_passes global local row \<longleftrightarrow>
        (\<forall>(col, selectedVals) \<in> selected global local. selectedVals \<noteq> [] \<longrightarrow>
           col \<notin> fst ` set row \<or> String (own row col) \<in> set selectedVals)))
   \<and> ((\<forall>(col, selectedVals) \<in> selected global local. selectedVals = []) \<longrightarrow>
        row_passes global local row)
   \<and> (\<forall>d. find (\<lambda>d. dataset_id d = i) ds = Some d \<longrightarrow>
         set (getFilteredRows ds global local i) = {row \<in> set (rows d). row_passes global local row})"
proof (intro conjI)
  show "(\<forall>(col, selectedVals) \<in> selected global local. selectedVals \<noteq> [] \<longrightarrow>
        col \<in> fst ` set row \<or> Object_prototype col = Undefined) \<longrightarrow>
     (row_passes global local row \<longleftrightarrow>
        (\<forall>(col, selectedVals) \<in> selected global local. selectedVals \<noteq> [] \<longrightarrow>
           col \<notin> fst ` set row \<or> String (own row col) \<in> set selectedVals))"
    by (rule impI) (rule row_passes_own)
  show "(\<forall>(col, selectedVals) \<in> selected global local. selectedVals = []) \<longrightarrow>
        row_passes global local row"
    unfolding row_passes_iff by blast
  show "\<forall>d. find (\<lambda>d. dataset_id d = i) ds = Some d \<longrightarrow>
         set (getFilteredRows ds global local i) = {row \<in> set (rows d). row_passes global local row}"
    by (simp add: getFilteredRows_def)
qed

theorem filter_evaluation_witness:
  "row_passes [(''region'', [''EU'', ''US'']), (''year'', [])] (Some [(''kind'', [''a''])])
     [(''region'', JStr ''EU''), (''year'', JStr ''2020'')]
   \<and> \<not> row_passes [(''region'', [''EU'', ''US''])] (Some [(''year'', [''2021''])])
     [(''region'', JStr ''EU''), (''year'', JStr ''2020'')]"
proof
  let ?row = "[(''region'', JStr ''EU''), (''year'', JStr ''2020'')] :: DataRow"
  let ?g1 = "[(''region'', [''EU'', ''US'']), (''year'', [])] :: selections"
  let ?l1 = "Some [(''kind'', [''a''])] :: selections option"
  let ?g2 = "[(''region'', [''EU'', ''US''])] :: selections"
  let ?l2 = "Some [(''year'', [''2021''])] :: selections option"
  have kind: "Object_prototype ''kind'' = Undefined"
    by (simp add: Object_prototype_def)
  have h1: "\<forall>(col, selectedVals) \<in> selected ?g1 ?l1.
          selectedVals \<noteq> [] \<longrightarrow> col \<in> fst ` set ?row \<or> Object_prototype col = Undefined"
    by (simp add: selected_def kind)
  have r1: "\<forall>(col, selectedVals) \<in> selected ?g1 ?l1.
          selectedVals \<noteq> [] \<longrightarrow>
            col \<notin> fst ` set ?row \<or> String (own ?row col) \<in> set selectedVals"
    by (simp add: selected_def own_def)
  note c1 = conjunct1 [OF filter_evaluation [of ?g1 ?l1 ?row]]
  from c1 h1 have "row_passes ?g1 ?l1 ?row \<longleftrightarrow>
       (\<forall>(col, selectedVals) \<in> selected ?g1 ?l1. selectedVals \<noteq> [] \<longrightarrow>
            col \<notin> fst ` set ?row \<or> String (own ?row col) \<in> set selectedVals)"
    by (rule mp)
  from this r1 show "row_passes ?g1 ?l1 ?row"
    by (rule iffD2)
  have h2: "\<forall>(col, selectedVals) \<in> selected ?g2 ?l2.
          selectedVals \<noteq> [] \<longrightarrow> col \<in> fst ` set ?row \<or> Object_prototype col = Undefined"
    by (simp add: selected_def)
  have r2: "\<not> (\<forall>(col, selectedVals) \<in> selected ?g2 ?l2.
          selectedVals \<noteq> [] \<longrightarrow>
            col \<notin> fst ` set ?row \<or> String (own ?row col) \<in> set selectedVals)"
    by (simp add: selected_def own_def)
  note c2 = conjunct1 [OF filter_evaluation [of ?g2 ?l2 ?row]]
  from c2 h2 have i2: "row_passes ?g2 ?l2 ?row \<longleftrightarrow>
       (\<forall>(col, selectedVals) \<in> selected ?g2 ?l2. selectedVals \<noteq> [] \<longrightarrow>
            col \<notin> fst ` set ?row \<or> String (own ?row col) \<in> set selectedVals)"
    by (rule mp)
  show "\<not> row_passes ?g2 ?l2 ?row"
    unfolding i2 by (rule r2)
qed

text \<open>
  The claim as it stands fails for a column named like a member of \<open>Object.prototype\<close>: a
  row without a cell \<open>toString\<close> does not pass a selection on that column, and in a dataset
  with a column \<open>constructor\<close> a selection on it drops the row whose cell is empty.
\<close>

theorem filter_evaluation_counterexample:
  "\<not> row_passes [(''toString'', [''x''])] None [(''region'', JStr ''EU'')]
   \<and> ''toString'' \<notin> fst ` set [(''region'', JStr ''EU'')]
   \<and> getFilteredRows
        [\<lparr> dataset_id = ''d1'', dataset_name = ''sales.xlsx'',
           rows = [[(''constructor'', JStr ''x''), (''region'', JStr ''EU'')],
                   [(''region'', JStr ''US'')]],
           columns = [''constructor'', ''region''], numericColumns = [], dateColumns = [],
           textColumns = [''constructor'', ''region''] \<rparr>]
        [(''constructor'', [''x''])] None ''d1''
       = [[(''constructor'', JStr ''x''), (''region'', JStr ''EU'')]]
   \<and> ''constructor'' \<notin> fst ` set [(''region'', JStr ''US'')]"
proof -
  have t: "read [(''region'', JStr ''EU'')] ''toString''
      = BuiltIn ''function toString() { [native code] }''"
    by (simp add: read_defs)
  have c1: "read [(''constructor'', JStr ''x''), (''region'', JStr ''EU'')] ''constructor''
      = Value (JStr ''x'')"
    by (simp add: read_defs)
  have c2: "read [(''region'', JStr ''US'')] ''constructor''
      = BuiltIn ''function Object() { [native code] }''"
    by (simp add: read_defs)
  have e: "Object_entries [(k, [''x''])] = [(k, [''x''])]" for k :: string
    by (simp add: Object_entries_def OrdinaryOwnPropertyKeys_def)
  have "\<not> row_passes [(''toString'', [''x''])] None [(''region'', JStr ''EU'')]"
    by (simp add: row_passes_def passes_def e t)
  moreover have "getFilteredRows
        [\<lparr> dataset_id = ''d1'', dataset_name = ''sales.xlsx'',
           rows = [[(''constructor'', JStr ''x''), (''region'', JStr ''EU'')],
                   [(''region'', JStr ''US'')]],
           columns = [''constructor'', ''region''], numericColumns = [], dateColumns = [],
           textColumns = [''constructor'', ''region''] \<rparr>]
        [(''constructor'', [''x''])] None ''d1''
       = [[(''constructor'', JStr ''x''), (''region'', JStr ''EU'')]]"
    by (simp add: getFilteredRows_def row_passes_def passes_def e c1 c2)
  ultimately show ?thesis by simp
qed

text \<open>
  Claim C10. For an identifier that no dataset of the registry carries, \<open>getFilteredRows\<close>
  returns the empty list; otherwise it returns the rows of the dataset found under that
  identifier that pass the filter, each one unchanged, none twice, in the order of the
  dataset: a subsequence of its rows.
\<close>

theorem filter_order_preserving:
  "(i \<notin> dataset_id ` set ds \<longrightarrow> getFilteredRows ds global local i = [])
   \<and> (\<forall>d. find (\<lambda>d. dataset_id d = i) ds = Some d \<longrightarrow>
          d \<in> set ds \<and> dataset_id d = i
          \<and> getFilteredRows ds global local i = filter (row_passes global local) (rows d)
          \<and> subseq (getFilteredRows ds global local i) (rows d))"
proof (intro conjI impI allI)
  assume "i \<notin> dataset_id ` set ds"
  then have "find (\<lambda>d. dataset_id d = i) ds = None"
    by (auto simp: find_None_iff)
  then show "getFilteredRows ds global local i = []"
    by (simp add: getFilteredRows_def)
next
  fix d assume f: "find (\<lambda>d. dataset_id d = i) ds = Some d"
  then show "d \<in> set ds" "dataset_id d = i"
    by (auto simp: find_Some_iff)
  from f show "getFilteredRows ds global local i = filter (row_passes global local) (rows d)"
    by (simp add: getFilteredRows_def)
  then show "subseq (getFilteredRows ds global local i) (rows d)"
    by simp
qed

theorem filter_order_preserving_witness:
  "getFilteredRows
     [\<lparr> dataset_id = ''d1'', dataset_name = ''sales.xlsx'',
        rows = [[(''region'', JStr ''EU'')], [(''region'', JStr ''US'')], [(''region'', JStr ''EU'')]],
        columns = [''region''], numericColumns = [], dateColumns = [],
        textColumns = [''region''] \<rparr>]
     [(''region'', [''EU''])] None ''d2'' = []
   \<and> subseq
     (getFilteredRows
       [\<lparr> dataset_id = ''d1'', dataset_name = ''sales.xlsx'',
        rows = [[(''region'', JStr ''EU'')], [(''region'', JStr ''US'')], [(''region'', JStr ''EU'')]],
        columns = [''region''], numericColumns = [], dateColumns = [],
        textColumns = [''region''] \<rparr>]
       [(''region'', [''EU''])] None ''d1'')
     [[(''region'', JStr ''EU'')], [(''region'', JStr ''US'')], [(''region'', JStr ''EU'')]]"
proof
  have "''d2'' \<notin> dataset_id ` set
     [\<lparr> dataset_id = ''d1'', dataset_name = ''sales.xlsx'',
        rows = [[(''region'', JStr ''EU'')], [(''region'', JStr ''US'')], [(''region'', JStr ''EU'')]],
        columns = [''region''], numericColumns = [], dateColumns = [],
        textColumns = [''region''] \<rparr>]"
    by simp
  then show "getFilteredRows
     [\<lparr> dataset_id = ''d1'', dataset_name = ''sales.xlsx'',
        rows = [[(''region'', JStr ''EU'')], [(''region'', JStr ''US'')], [(''region'', JStr ''EU'')]],
        columns = [''region''], numericColumns = [], dateColumns = [],
        textColumns = [''region''] \<rparr>]
     [(''region'', [''EU''])] None ''d2'' = []"
    using filter_order_preserving [of "''d2''"
      "[\<lparr> dataset_id = ''d1'', dataset_name = ''sales.xlsx'',
        rows = [[(''region'', JStr ''EU'')], [(''region'', JStr ''US'')], [(''region'', JStr ''EU'')]],
        columns = [''region''], numericColumns = [], dateColumns = [],
        textColumns = [''region''] \<rparr>]" "[(''region'', [''EU''])]" None]
    by blast
  have "find (\<lambda>d. dataset_id d = ''d1'')
     [\<lparr> dataset_id = ''d1'', dataset_name = ''sales.xlsx'',
        rows = [[(''region'', JStr ''EU'')], [(''region'', JStr ''US'')], [(''region'', JStr ''EU'')]],
        columns = [''region''], numericColumns = [], dateColumns = [],
        textColumns = [''region''] \<rparr>]
     = Some \<lparr> dataset_id = ''d1'', dataset_name = ''sales.xlsx'',
        rows = [[(''region'', JStr ''EU'')], [(''region'', JStr ''US'')], [(''region'', JStr ''EU'')]],
        columns = [''region''], numericColumns = [], dateColumns = [],
        textColumns = [''region''] \<rparr>"
    by simp
  then have "subseq
     (getFilteredRows
       [\<lparr> dataset_id = ''d1'', dataset_name = ''sales.xlsx'',
        rows = [[(''region'', JStr ''EU'')], [(''region'', JStr ''US'')], [(''region'', JStr ''EU'')]],
        columns = [''region''], numericColumns = [], dateColumns = [],
        textColumns = [''region''] \<rparr>]
       [(''region'', [''EU''])] None ''d1'')
     (rows \<lparr> dataset_id = ''d1'', dataset_name = ''sales.xlsx'',
        rows = [[(''region'', JStr ''EU'')], [(''region'', JStr ''US'')], [(''region'', JStr ''EU'')]],
        columns = [''region''], numericColumns = [], dateColumns = [],
        textColumns = [''region''] \<rparr>)"
    using filter_order_preserving [of "''d1''"
      "[\<lparr> dataset_id = ''d1'', dataset_name = ''sales.xlsx'',
        rows = [[(''region'', JStr ''EU'')], [(''region'', JStr ''US'')], [(''region'', JStr ''EU'')]],
        columns = [''region''], numericColumns = [], dateColumns = [],
        textColumns = [''region''] \<rparr>]" "[(''region'', [''EU''])]" None]
    by blast
  then show "subseq
     (getFilteredRows
       [\<lparr> dataset_id = ''d1'', dataset_name = ''sales.xlsx'',
        rows = [[(''region'', JStr ''EU'')], [(''region'', JStr ''US'')], [(''region'', JStr ''EU'')]],
        columns = [''region''], numericColumns = [], dateColumns = [],
        textColumns = [''region''] \<rparr>]
       [(''region'', [''EU''])] None ''d1'')
     [[(''region'', JStr ''EU'')], [(''region'', JStr ''US'')], [(''region'', JStr ''EU'')]]"
    by simp
qed

section \<open>Common columns\<close>

lemma set_uniq_aux:
  "set (foldl (\<lambda>result v. if v \<in> set result then result else result @ [v]) acc xs)
     = set acc \<union> set xs"
  by (induction xs arbitrary: acc) auto

lemma set_uniq: "set (uniq xs) = set xs"
  by (simp add: uniq_def set_uniq_aux)

lemma set_intersection:
  "set (intersection xss) = {v. xss \<noteq> [] \<and> (\<forall>xs \<in> set xss. v \<in> set xs)}"
proof (cases xss)
  case Nil
  then show ?thesis by simp
next
  case (Cons a as)
  then show ?thesis by (auto simp: set_uniq list_all_iff)
qed

lemma set_commonColumns:
  "set (commonColumns ds) = {c. ds \<noteq> [] \<and> (\<forall>d \<in> set ds. c \<in> set (columns d))}"
proof (cases ds)
  case Nil
  then show ?thesis by (simp add: commonColumns_def)
next
  case (Cons d ds')
  show ?thesis
  proof (cases ds')
    case Nil
    with Cons show ?thesis by (simp add: commonColumns_def)
  next
    case (Cons d' ds'')
    with \<open>ds = d # ds'\<close> have "commonColumns ds = intersection (map columns ds)"
      by (simp add: commonColumns_def)
    then show ?thesis by (auto simp: set_intersection)
  qed
qed

lemma set_getBoardSpecificData_columns:
  "set (getBoardSpecificData_columns ds board)
     = {c. usedDatasets ds board \<noteq> [] \<and> (\<forall>d \<in> set (usedDatasets ds board). c \<in> set (columns d))}"
proof (cases "usedDatasets ds board = []")
  case True
  then show ?thesis
    by (simp add: getBoardSpecificData_columns_def usedDatasets_def)
next
  case False
  then have "getBoardSpecificData_columns ds board
      = intersection (map columns (usedDatasets ds board))"
    by (simp add: getBoardSpecificData_columns_def usedDatasets_def)
  then show ?thesis by (auto simp: set_intersection)
qed

text \<open>
  Claim C7. The global common-column list holds exactly the columns that every imported
  dataset has, and the per-board list exactly the columns that every dataset referenced by
  one of the board's widgets has (both lists are empty when there is no such dataset). For
  two datasets with columns A, B, C and B, C, D the global list is B, C.
\<close>

theorem common_columns:
  "set (commonColumns ds) = {c. ds \<noteq> [] \<and> (\<forall>d \<in> set ds. c \<in> set (columns d))}
   \<and> set (getBoardSpecificData_columns ds board)
       = {c. usedDatasets ds board \<noteq> []
             \<and> (\<forall>d \<in> set (usedDatasets ds board). c \<in> set (columns d))}
   \<and> set (usedDatasets ds board)
       = {d \<in> set ds. \<exists>w \<in> set (widgets board). datasetId w = dataset_id d}
   \<and> commonColumns [d1\<lparr>columns := [''A'', ''B'', ''C'']\<rparr>, d2\<lparr>columns := [''B'', ''C'', ''D'']\<rparr>]
       = [''B'', ''C'']"
proof (intro conjI)
  show "set (commonColumns ds) = {c. ds \<noteq> [] \<and> (\<forall>d \<in> set ds. c \<in> set (columns d))}"
    by (rule set_commonColumns)
  show "set (getBoardSpecificData_columns ds board)
       = {c. usedDatasets ds board \<noteq> []
             \<and> (\<forall>d \<in> set (usedDatasets ds board). c \<in> set (columns d))}"
    by (rule set_getBoardSpecificData_columns)
  show "set (usedDatasets ds board)
       = {d \<in> set ds. \<exists>w \<in> set (widgets board). datasetId w = dataset_id d}"
    unfolding usedDatasets_def by (auto simp: image_iff) metis
  show "commonColumns [d1\<lparr>columns := [''A'', ''B'', ''C'']\<rparr>, d2\<lparr>columns := [''B'', ''C'', ''D'']\<rparr>]
       = [''B'', ''C'']"
    by (simp add: commonColumns_def uniq_def)
qed

theorem common_columns_witness:
  "set (commonColumns
     [\<lparr> dataset_id = ''d1'', dataset_name = ''a.xlsx'', rows = [], columns = [''A'', ''B''],
        numericColumns = [], dateColumns = [], textColumns = [''A'', ''B''] \<rparr>,
      \<lparr> dataset_id = ''d2'', dataset_name = ''b.xlsx'', rows = [], columns = [''B'', ''C''],
        numericColumns = [], dateColumns = [], textColumns = [''B'', ''C''] \<rparr>]) = {''B''}"
proof -
  have "{c. [\<lparr> dataset_id = ''d1'', dataset_name = ''a.xlsx'', rows = [], columns = [''A'', ''B''],
        numericColumns = [], dateColumns = [], textColumns = [''A'', ''B''] \<rparr>,
      \<lparr> dataset_id = ''d2'', dataset_name = ''b.xlsx'', rows = [], columns = [''B'', ''C''],
        numericColumns = [], dateColumns = [], textColumns = [''B'', ''C''] \<rparr>] \<noteq> []
      \<and> (\<forall>d \<in> set [\<lparr> dataset_id = ''d1'', dataset_name = ''a.xlsx'', rows = [],
        columns = [''A'', ''B''],
        numericColumns = [], dateColumns = [], textColumns = [''A'', ''B''] \<rparr>,
      \<lparr> dataset_id = ''d2'', dataset_name = ''b.xlsx'', rows = [], columns = [''B'', ''C''],
        numericColumns = [], dateColumns = [], textColumns = [''B'', ''C''] \<rparr>].
        c \<in> set (columns d))} = {''B''}"
    by auto
  then show ?thesis
    using common_columns [of "[\<lparr> dataset_id = ''d1'', dataset_name = ''a.xlsx'', rows = [],
        columns = [''A'', ''B''],
        numericColumns = [], dateColumns = [], textColumns = [''A'', ''B''] \<rparr>,
      \<lparr> dataset_id = ''d2'', dataset_name = ''b.xlsx'', rows = [], columns = [''B'', ''C''],
        numericColumns = [], dateColumns = [], textColumns = [''B'', ''C''] \<rparr>]"]
    by simp
qed

section \<open>Column classification and ingestion\<close>

lemma isNum_is_numeric: "isNum val \<longleftrightarrow> is_numeric val"
proof -
  have "isNaN n \<longleftrightarrow> n = NaN" for n
    by (cases n) simp_all
  then show ?thesis
    by (cases val) (simp_all add: isNum_def is_numeric_def)
qed

lemma isDate_Inr: "isDate parses val = Inr b \<Longrightarrow> b = is_date parses val"
  by (cases val) (auto simp: isDate_def is_date_def toString_def split: if_splits)

lemma classify_Inr:
  "classify parses es (n, d, t) = Inr (n', d', t') \<Longrightarrow>
     n' = n @ map fst (filter (\<lambda>(col, val). class_of parses val = Numeric) es)
     \<and> d' = d @ map fst (filter (\<lambda>(col, val). class_of parses val = Date) es)
     \<and> t' = t @ map fst (filter (\<lambda>(col, val). class_of parses val = Text) es)"
proof (induction es arbitrary: n d t)
  case Nil
  then show ?case by simp
next
  case (Cons e es)
  obtain col val where e: "e = (col, val)" by (cases e)
  from Cons.prems e obtain b where b: "isDate parses val = Inr b"
    by (cases "isDate parses val") auto
  then have bd: "b = is_date parses val" by (rule isDate_Inr)
  show ?case
  proof (cases "is_numeric val")
    case True
    with Cons.prems e b have "classify parses es (n @ [col], d, t) = Inr (n', d', t')"
      by (simp add: isNum_is_numeric)
    from Cons.IH [OF this] True e show ?thesis by (simp add: class_of_def)
  next
    case False
    show ?thesis
    proof (cases "is_date parses val")
      case True
      with Cons.prems e b bd False have "classify parses es (n, d @ [col], t) = Inr (n', d', t')"
        by (simp add: isNum_is_numeric)
      from Cons.IH [OF this] True False e show ?thesis by (simp add: class_of_def)
    next
      case nd: False
      with Cons.prems e b bd False have "classify parses es (n, d, t @ [col]) = Inr (n', d', t')"
        by (simp add: isNum_is_numeric)
      from Cons.IH [OF this] nd False e show ?thesis by (simp add: class_of_def)
    qed
  qed
qed

lemma processExcelFile_Inr:
  assumes "processExcelFile parses new_id file_name outcome = Inr d"
  obtains sampleRow more where "outcome = SheetRows (sampleRow # more)"
    and "d = \<lparr> dataset_id = new_id, dataset_name = file_name, rows = sampleRow # more,
              columns = Object_keys sampleRow,
              numericColumns = columns_of_class parses Numeric sampleRow,
              dateColumns = columns_of_class parses Date sampleRow,
              textColumns = (if columns_of_class parses Text sampleRow \<noteq> []
                             then columns_of_class parses Text sampleRow
                             else Object_keys sampleRow) \<rparr>"
proof -
  from assms obtain jsonData where o: "outcome = SheetRows jsonData"
    by (cases outcome) (simp_all add: processExcelFile_def)
  with assms obtain sampleRow more where j: "jsonData = sampleRow # more"
    by (cases jsonData) (simp_all add: processExcelFile_def)
  with assms o obtain n dt t where
    c: "classify parses (Object_entries sampleRow) ([], [], []) = Inr (n, dt, t)"
    by (cases "classify parses (Object_entries sampleRow) ([], [], [])")
       (auto simp: processExcelFile_def)
  from classify_Inr [OF c] have
    "n = columns_of_class parses Numeric sampleRow"
    "dt = columns_of_class parses Date sampleRow"
    "t = columns_of_class parses Text sampleRow"
    by (simp_all add: columns_of_class_def)
  with assms o j c have "d = \<lparr> dataset_id = new_id, dataset_name = file_name,
              rows = sampleRow # more, columns = Object_keys sampleRow,
              numericColumns = columns_of_class parses Numeric sampleRow,
              dateColumns = columns_of_class parses Date sampleRow,
              textColumns = (if columns_of_class parses Text sampleRow \<noteq> []
                             then columns_of_class parses Text sampleRow
                             else Object_keys sampleRow) \<rparr>"
    by (simp add: processExcelFile_def)
  with o j that show thesis by blast
qed

lemma columns_of_class_member:
  assumes "distinct (map fst row)"
  shows "c \<in> set (columns_of_class parses cl row)
     \<longleftrightarrow> (\<exists>val. own row c = Some val \<and> class_of parses val = cl)"
  using assms
  by (auto simp: columns_of_class_def set_Object_entries own_def image_iff)

text \<open>
  Claim C5. In every successfully imported dataset, when no column of the first row is
  classified as text the text columns are the full column list; so a dataset with a
  non-empty column list has at least one text column.
\<close>

theorem text_bucket_fallback:
  assumes "processExcelFile parses new_id file_name outcome = Inr d"
  shows "\<exists>sampleRow more. outcome = SheetRows (sampleRow # more)
           \<and> (columns_of_class parses Text sampleRow = [] \<longrightarrow> textColumns d = columns d)
           \<and> (columns d \<noteq> [] \<longrightarrow> textColumns d \<noteq> [])"
proof -
  from assms obtain sampleRow more where "outcome = SheetRows (sampleRow # more)"
    and "d = \<lparr> dataset_id = new_id, dataset_name = file_name, rows = sampleRow # more,
              columns = Object_keys sampleRow,
              numericColumns = columns_of_class parses Numeric sampleRow,
              dateColumns = columns_of_class parses Date sampleRow,
              textColumns = (if columns_of_class parses Text sampleRow \<noteq> []
                             then columns_of_class parses Text sampleRow
                             else Object_keys sampleRow) \<rparr>"
    by (rule processExcelFile_Inr)
  then show ?thesis by auto
qed

text \<open>
  Claim C9. When parsing fails (the reader throws, or the first sheet has no rows),
  \<open>processExcelFile\<close> returns an error; and whenever it returns an error the import raises
  one alert and changes nothing else: the datasets and the active dataset stay as they
  were.
\<close>

theorem parse_failure_atomic:
  "processExcelFile parses new_id file_name ReadThrows = Inl XlsxError
   \<and> processExcelFile parses new_id file_name (SheetRows []) = Inl EmptyFile
   \<and> (\<forall>e. processExcelFile parses new_id file_name outcome = Inl e \<longrightarrow>
         handleFileChange parses new_id (Some (file_name, outcome)) st
           = st\<lparr> alerts := alerts st @ [FileParseFailed],
                 console_errors := console_errors st @ [e] \<rparr>
         \<and> datasets (handleFileChange parses new_id (Some (file_name, outcome)) st) = datasets st
         \<and> activeDatasetId (handleFileChange parses new_id (Some (file_name, outcome)) st)
             = activeDatasetId st
         \<and> alerts (handleFileChange parses new_id (Some (file_name, outcome)) st)
             = alerts st @ [FileParseFailed])"
  by (simp add: processExcelFile_def handleFileChange_def)

lemma class_of_unfold:
  "class_of parses val =
     (if Number (Some val) \<noteq> NaN \<and> typeof (Some val) \<noteq> ''boolean'' then Numeric
      else if parses (String (Some val))
              \<and> (CHR ''-'' \<in> set (String (Some val)) \<or> CHR ''/'' \<in> set (String (Some val)))
           then Date else Text)"
  by (cases val) (simp_all add: class_of_def is_numeric_def is_date_def)

text \<open>
  Claim C4, amended. The classification is a function of the first row alone. A column is
  numeric when its value converts to a number other than \<open>NaN\<close> (the infinities included)
  and is not a boolean; otherwise a date when the string form of the value parses as a date
  and contains a hyphen or a slash; otherwise text. Every column of the row is listed
  under the class of its value, and under no other.
\<close>

theorem column_classification:
  assumes "processExcelFile parses new_id file_name (SheetRows (sampleRow # others)) = Inr d"
  shows "columns d = Object_keys sampleRow
    \<and> numericColumns d = columns_of_class parses Numeric sampleRow
    \<and> dateColumns d = columns_of_class parses Date sampleRow
    \<and> textColumns d = (if columns_of_class parses Text sampleRow = [] then columns d
                        else columns_of_class parses Text sampleRow)
    \<and> (\<forall>val. class_of parses val =
          (if Number (Some val) \<noteq> NaN \<and> typeof (Some val) \<noteq> ''boolean'' then Numeric
           else if parses (String (Some val))
                   \<and> (CHR ''-'' \<in> set (String (Some val)) \<or> CHR ''/'' \<in> set (String (Some val)))
                then Date else Text))
    \<and> (distinct (map fst sampleRow) \<longrightarrow>
         (\<forall>col cl. col \<in> set (columns_of_class parses cl sampleRow)
            \<longleftrightarrow> (\<exists>val. own sampleRow col = Some val \<and> class_of parses val = cl)))"
proof -
  from assms obtain r m where "SheetRows (sampleRow # others) = SheetRows (r # m)"
    and d: "d = \<lparr> dataset_id = new_id, dataset_name = file_name, rows = r # m,
              columns = Object_keys r,
              numericColumns = columns_of_class parses Numeric r,
              dateColumns = columns_of_class parses Date r,
              textColumns = (if columns_of_class parses Text r \<noteq> []
                             then columns_of_class parses Text r
                             else Object_keys r) \<rparr>"
    by (rule processExcelFile_Inr)
  then have r: "r = sampleRow" by simp
  have "columns d = Object_keys sampleRow"
    "numericColumns d = columns_of_class parses Numeric sampleRow"
    "dateColumns d = columns_of_class parses Date sampleRow"
    "textColumns d = (if columns_of_class parses Text sampleRow = [] then columns d
                        else columns_of_class parses Text sampleRow)"
    unfolding d r by simp_all
  then show ?thesis
    using class_of_unfold [of parses] columns_of_class_member [of sampleRow _ parses]
    by blast
qed

theorem column_classification_witness:
  "columns_of_class example_parses Numeric
       [(''amount'', JStr ''12.5''), (''day'', JStr ''2024-01-05''), (''city'', JStr ''Oslo'')]
     = [''amount'']
   \<and> columns_of_class example_parses Date
       [(''amount'', JStr ''12.5''), (''day'', JStr ''2024-01-05''), (''city'', JStr ''Oslo'')]
     = [''day'']
   \<and> columns_of_class example_parses Text
       [(''amount'', JStr ''12.5''), (''day'', JStr ''2024-01-05''), (''city'', JStr ''Oslo'')]
     = [''city'']"
proof -
  let ?row = "[(''amount'', JStr ''12.5''), (''day'', JStr ''2024-01-05''),
    (''city'', JStr ''Oslo'')] :: DataRow"
  let ?d = "\<lparr> dataset_id = ''k3v9x2a'', dataset_name = ''sales.xlsx'', rows = [?row],
    columns = [''amount'', ''day'', ''city''], numericColumns = [''amount''],
    dateColumns = [''day''], textColumns = [''city''] \<rparr>"
  have b: "binary64 (25 / 2) = Fin (25 / 2)"
    using binary64_eqI [of 3 "25 / 2" 7036874417766400] by simp
  have n: "StringToNumber ''12.5'' = Fin (25 / 2)" "StringToNumber ''2024-01-05'' = NaN"
    "StringToNumber ''Oslo'' = NaN"
    by (simp_all add: literal_defs b)
  have e: "Object_entries ?row = ?row"
    by (simp add: Object_entries_def OrdinaryOwnPropertyKeys_def object_defs)
  have "processExcelFile example_parses ''k3v9x2a'' ''sales.xlsx'' (SheetRows (?row # []))
      = Inr ?d"
    by (simp add: processExcelFile_def e Object_keys_def Object_entries_def [symmetric]
        isNum_def isDate_def toString_def example_parses_def n)
  note c = column_classification [OF this]
  from c have "numericColumns ?d = columns_of_class example_parses Numeric ?row"
    by blast
  then have 1: "columns_of_class example_parses Numeric ?row = [''amount'']"
    by simp
  from c have "dateColumns ?d = columns_of_class example_parses Date ?row"
    by blast
  then have 2: "columns_of_class example_parses Date ?row = [''day'']"
    by simp
  from c have "textColumns ?d = (if columns_of_class example_parses Text ?row = []
      then columns ?d else columns_of_class example_parses Text ?row)"
    by blast
  then have 3: "columns_of_class example_parses Text ?row = [''city'']"
    by (simp split: if_splits)
  from 1 2 3 show ?thesis by blast
qed

theorem column_classification_counterexample:
  "isNum (JStr ''Infinity'') \<and> Number (Some (JStr ''Infinity'')) = PosInf
   \<and> \<not> isFinite (Number (Some (JStr ''Infinity'')))
   \<and> processExcelFile example_parses ''k3v9x2a'' ''sales.xlsx''
        (SheetRows [[(''limit'', JStr ''Infinity''), (''city'', JStr ''Oslo'')]])
      = Inr \<lparr> dataset_id = ''k3v9x2a'', dataset_name = ''sales.xlsx'',
              rows = [[(''limit'', JStr ''Infinity''), (''city'', JStr ''Oslo'')]],
              columns = [''limit'', ''city''], numericColumns = [''limit''],
              dateColumns = [], textColumns = [''city''] \<rparr>"
proof -
  have n: "StringToNumber ''Infinity'' = PosInf" "StringToNumber ''Oslo'' = NaN"
    by (simp_all add: literal_defs)
  have e: "Object_entries [(''limit'', JStr ''Infinity''), (''city'', JStr ''Oslo'')]
      = [(''limit'', JStr ''Infinity''), (''city'', JStr ''Oslo'')]"
    by (simp add: Object_entries_def OrdinaryOwnPropertyKeys_def object_defs)
  show ?thesis
    by (simp add: processExcelFile_def e Object_keys_def Object_entries_def [symmetric]
        isNum_def isDate_def toString_def example_parses_def n)
qed

theorem text_bucket_fallback_witness:
  "(case processExcelFile example_parses ''k3v9x2a'' ''sales.xlsx''
           (SheetRows [[(''amount'', JStr ''12''), (''count'', JStr ''3'')]]) of
      Inl e \<Rightarrow> False
    | Inr d \<Rightarrow> columns d = [''amount'', ''count''] \<and> textColumns d = columns d)"
proof -
  let ?row = "[(''amount'', JStr ''12''), (''count'', JStr ''3'')] :: DataRow"
  let ?d = "\<lparr> dataset_id = ''k3v9x2a'', dataset_name = ''sales.xlsx'', rows = [?row],
    columns = [''amount'', ''count''], numericColumns = [''amount'', ''count''],
    dateColumns = [], textColumns = [''amount'', ''count''] \<rparr>"
  have n: "StringToNumber ''12'' = Fin 12" "StringToNumber ''3'' = Fin 3"
    by (simp_all add: literal_defs)
  have e: "Object_entries ?row = ?row"
    by (simp add: Object_entries_def OrdinaryOwnPropertyKeys_def object_defs)
  have p: "processExcelFile example_parses ''k3v9x2a'' ''sales.xlsx'' (SheetRows [?row]) = Inr ?d"
    by (simp add: processExcelFile_def e Object_keys_def Object_entries_def [symmetric]
        isNum_def isDate_def toString_def example_parses_def n)
  have t: "columns_of_class example_parses Text ?row = []"
    by (simp add: columns_of_class_def e class_of_def is_numeric_def example_parses_def n)
  from text_bucket_fallback [OF p] t have "textColumns ?d = columns ?d"
    by auto
  then show ?thesis unfolding p by simp
qed

theorem parse_failure_atomic_witness:
  "handleFileChange example_parses ''k3v9x2a'' (Some (''empty.xlsx'', SheetRows [])) (initial_App (Fin 1700000000000))
     = (initial_App (Fin 1700000000000))\<lparr> alerts := [FileParseFailed], console_errors := [EmptyFile] \<rparr>"
proof -
  have "processExcelFile example_parses ''k3v9x2a'' ''empty.xlsx'' (SheetRows []) = Inl EmptyFile"
    using parse_failure_atomic [of example_parses "''k3v9x2a''" "''empty.xlsx''"] by blast
  then have "handleFileChange example_parses ''k3v9x2a'' (Some (''empty.xlsx'', SheetRows []))
       (initial_App (Fin 1700000000000))
     = (initial_App (Fin 1700000000000))\<lparr> alerts := alerts (initial_App (Fin 1700000000000)) @ [FileParseFailed],
         console_errors := console_errors (initial_App (Fin 1700000000000)) @ [EmptyFile] \<rparr>"
    using parse_failure_atomic [of example_parses "''k3v9x2a''" "''empty.xlsx''" "SheetRows []"
        "initial_App (Fin 1700000000000)"] by blast
  then show ?thesis by (simp add: initial_App_def)
qed

section \<open>Grouping\<close>

lemma uniq_snoc:
  "uniq (xs @ [x]) = (if x \<in> set xs then uniq xs else uniq xs @ [x])"
  by (simp add: uniq_def set_uniq_aux)

lemma distinct_uniq: "distinct (uniq xs)"
  by (induction xs rule: rev_induct) (simp_all add: uniq_snoc set_uniq, simp add: uniq_def)

lemma uniq_first_occurrences: "uniq xs = rev (remdups (rev xs))"
  by (induction xs rule: rev_induct) (simp_all add: uniq_snoc, simp add: uniq_def)

lemma own_map_keys:
  "own (map (\<lambda>k. (k, g k)) ks) key = (if key \<in> set ks then Some (g key) else None)"
  by (induction ks) (auto simp: own_def)

lemma assign_new:
  "key \<notin> set ks \<Longrightarrow> assign (map (\<lambda>k. (k, g k)) ks) key v = map (\<lambda>k. (k, g k)) ks @ [(key, v)]"
  by (induction ks) auto

lemma assign_old:
  "key \<in> set ks \<Longrightarrow> distinct ks \<Longrightarrow>
     assign (map (\<lambda>k. (k, g k)) ks) key v = map (\<lambda>k. (k, if k = key then v else g k)) ks"
proof (induction ks)
  case Nil
  then show ?case by simp
next
  case (Cons k ks)
  show ?case
  proof (cases "k = key")
    case True
    with Cons.prems have "key \<notin> set ks" by simp
    then have "map (\<lambda>k. (k, g k)) ks = map (\<lambda>k. (k, if k = key then v else g k)) ks"
      by (intro map_cong) auto
    with True show ?thesis by simp
  next
    case False
    with Cons show ?thesis by simp
  qed
qed

lemma groupBy_snoc:
  "groupBy (xs @ [x]) f =
     (case groupBy xs f of Inl e \<Rightarrow> Inl e
      | Inr result \<Rightarrow>
          (case f x of Inl e \<Rightarrow> Inl e
           | Inr key \<Rightarrow>
               Inr (case own result key of
                      Some items \<Rightarrow> assign result key (items @ [x])
                    | None \<Rightarrow> assign result key [x])))"
  unfolding groupBy_def by simp

lemma category_keys_snoc:
  "category_keys resolve c (xs @ [x]) =
     (case category_keys resolve c xs of Inl e \<Rightarrow> Inl e
      | Inr keys \<Rightarrow> (case category_key resolve c x of Inl e \<Rightarrow> Inl e
                     | Inr key \<Rightarrow> Inr (keys @ [key])))"
  by (induction xs) (simp_all split: sum.splits)

lemma category_keys_Inr:
  "category_keys resolve c xs = Inr keys \<Longrightarrow> map (category_key resolve c) xs = map Inr keys"
  by (induction xs arbitrary: keys) (auto split: sum.splits)

lemma category_keys_total:
  "(\<And>row. row \<in> set xs \<Longrightarrow> category_key resolve c row = Inr (k row))
     \<Longrightarrow> category_keys resolve c xs = Inr (map k xs)"
  by (induction xs) simp_all

lemma groupBy_category_key:
  "groupBy xs (category_key resolve c) =
     (case category_keys resolve c xs of Inl e \<Rightarrow> Inl e
      | Inr keys \<Rightarrow> Inr (map (\<lambda>key. (key, group_of resolve xs c key)) (uniq keys)))"
proof (induction xs rule: rev_induct)
  case Nil
  then show ?case by (simp add: groupBy_def uniq_def)
next
  case (snoc x xs)
  let ?f = "category_key resolve c"
  show ?case
  proof (cases "category_keys resolve c xs")
    case (Inl e)
    with snoc show ?thesis by (simp add: groupBy_snoc category_keys_snoc)
  next
    case (Inr keys)
    let ?ks = "uniq keys"
    let ?g = "\<lambda>key. group_of resolve xs c key"
    have IH: "groupBy xs ?f = Inr (map (\<lambda>key. (key, ?g key)) ?ks)"
      using snoc Inr by simp
    have keys: "map ?f xs = map Inr keys"
      using Inr by (rule category_keys_Inr)
    show ?thesis
    proof (cases "?f x")
      case (Inl e)
      with Inr IH show ?thesis by (simp add: groupBy_snoc category_keys_snoc)
    next
      case fx: (Inr kx)
      have mem_iff: "kx \<in> set keys \<longleftrightarrow> (\<exists>y \<in> set xs. ?f y = Inr kx)"
      proof -
        have "Inr kx \<in> set (map ?f xs) \<longleftrightarrow> kx \<in> set keys"
          unfolding keys by auto
        moreover have "Inr kx \<in> set (map ?f xs) \<longleftrightarrow> (\<exists>y \<in> set xs. ?f y = Inr kx)"
          by force
        ultimately show ?thesis by simp
      qed
      have grp: "group_of resolve (xs @ [x]) c key
          = (if key = kx then ?g key @ [x] else ?g key)" for key
        using fx by (auto simp: group_of_def)
      have ks': "category_keys resolve c (xs @ [x]) = Inr (keys @ [kx])"
        using Inr fx by (simp add: category_keys_snoc)
      show ?thesis
      proof (cases "kx \<in> set keys")
        case True
        then have mem: "kx \<in> set ?ks" by (simp add: set_uniq)
        have "groupBy (xs @ [x]) ?f = Inr (assign (map (\<lambda>key. (key, ?g key)) ?ks) kx (?g kx @ [x]))"
          using mem fx by (simp add: groupBy_snoc IH own_map_keys)
        also have "assign (map (\<lambda>key. (key, ?g key)) ?ks) kx (?g kx @ [x])
            = map (\<lambda>key. (key, if key = kx then ?g kx @ [x] else ?g key)) ?ks"
          using mem by (rule assign_old) (rule distinct_uniq)
        also have "\<dots> = map (\<lambda>key. (key, group_of resolve (xs @ [x]) c key)) ?ks"
          by (intro map_cong) (auto simp: grp)
        finally show ?thesis using True by (simp add: ks' uniq_snoc)
      next
        case False
        then have mem: "kx \<notin> set ?ks" by (simp add: set_uniq)
        have "groupBy (xs @ [x]) ?f = Inr (assign (map (\<lambda>key. (key, ?g key)) ?ks) kx [x])"
          using mem fx by (simp add: groupBy_snoc IH own_map_keys)
        also have "assign (map (\<lambda>key. (key, ?g key)) ?ks) kx [x]
            = map (\<lambda>key. (key, ?g key)) ?ks @ [(kx, [x])]"
          using mem by (rule assign_new)
        finally have step: "groupBy (xs @ [x]) ?f
            = Inr (map (\<lambda>key. (key, ?g key)) ?ks @ [(kx, [x])])" .
        have old: "map (\<lambda>key. (key, ?g key)) ?ks
            = map (\<lambda>key. (key, group_of resolve (xs @ [x]) c key)) ?ks"
          using mem by (intro map_cong) (auto simp: grp)
        have "?g kx = []"
          using False mem_iff by (auto simp: group_of_def filter_empty_conv)
        then have new: "group_of resolve (xs @ [x]) c kx = [x]"
          by (simp add: grp)
        have "uniq (keys @ [kx]) = ?ks @ [kx]"
          using False by (simp add: uniq_snoc)
        then show ?thesis
          unfolding step old ks' by (simp only: map_append list.map new sum.case)
      qed
    qed
  qed
qed

lemma insort_key_map_keys:
  "insort_key (\<lambda>p. h (fst p)) (k, g k) (map (\<lambda>k. (k, g k)) ks)
     = map (\<lambda>k. (k, g k)) (insort_key h k ks)"
  by (induction ks) simp_all

lemma sort_key_map_keys:
  "sort_key (\<lambda>p. h (fst p)) (map (\<lambda>k. (k, g k)) ks) = map (\<lambda>k. (k, g k)) (sort_key h ks)"
  by (induction ks) (simp_all add: insort_key_map_keys)

lemma OrdinaryOwnPropertyKeys_map_keys:
  "OrdinaryOwnPropertyKeys (map (\<lambda>k. (k, g k)) ks) = map (\<lambda>k. (k, g k)) (own_key_order ks)"
proof -
  have f: "filter (\<lambda>p. P (fst p)) (map (\<lambda>k. (k, g k)) ks) = map (\<lambda>k. (k, g k)) (filter P ks)"
    for P by (induction ks) simp_all
  show ?thesis
    unfolding OrdinaryOwnPropertyKeys_def own_key_order_def
    by (simp only: f [of is_array_index] f [of "\<lambda>k. \<not> is_array_index k"]
        sort_key_map_keys map_append)
qed

lemma aggregateData_eq:
  "aggregateData resolve data categoryCol valueCol operation =
     (case category_keys resolve categoryCol data of Inl e \<Rightarrow> Inl e
      | Inr keys \<Rightarrow>
          Inr (map (\<lambda>key. (key, round2 (aggregate (group_of resolve data categoryCol key)
                                            valueCol operation)))
                 (own_key_order (uniq keys))))"
  by (simp add: aggregateData_def groupBy_category_key Object_entries_def
      OrdinaryOwnPropertyKeys_map_keys split: sum.splits)



lemma category_key_cell:
  assumes "c \<in> fst ` set row \<or> ordinary_name c"
  shows "category_key resolve c row = Inr (String (own row c))"
proof (cases "own row c")
  case None
  then have "c \<notin> fst ` set row" by (simp add: own_None_iff)
  with assms have "ordinary_name c" by simp
  with None show ?thesis
    by (simp add: category_key_def property_def ordinary_name_def read_def)
next
  case (Some v)
  then show ?thesis
    by (simp add: category_key_def property_def has_def read_def)
qed

lemma category_keys_cells:
  assumes "\<forall>row \<in> set data. c \<in> fst ` set row \<or> ordinary_name c"
  shows "category_keys resolve c data = Inr (map (\<lambda>row. String (own row c)) data)"
  by (rule category_keys_total) (rule category_key_cell, use assms in blast)

lemma group_of_cells:
  assumes "\<forall>row \<in> set data. c \<in> fst ` set row \<or> ordinary_name c"
  shows "group_of resolve data c key = filter (\<lambda>row. String (own row c) = key) data"
proof -
  have "category_key resolve c row = Inr (String (own row c))" if "row \<in> set data" for row
    using assms that by (intro category_key_cell) blast
  then show ?thesis
    unfolding group_of_def by (intro filter_cong) auto
qed

lemma category_keys_ordinary:
  assumes "ordinary_name c"
  shows "category_keys resolve c data = Inr (map (\<lambda>row. String (own row c)) data)"
  by (rule category_keys_cells) (simp add: assms)

lemma group_of_ordinary:
  assumes "ordinary_name c"
  shows "group_of resolve data c key = filter (\<lambda>row. String (own row c) = key) data"
  by (rule group_of_cells) (simp add: assms)

declare category_keys.simps [simp del]
section \<open>Aggregation\<close>

lemma or_zero_Number: "or_zero (Number v) = numeric_or_zero v"
  by (cases "Number v") (simp_all add: or_zero_def numeric_or_zero_def)

lemma trim_id:
  assumes "s \<noteq> []" "\<not> is_StrWhiteSpaceChar (hd s)" "\<not> is_StrWhiteSpaceChar (last s)"
  shows "trim s = s"
proof -
  have a: "dropWhile is_StrWhiteSpaceChar s = s"
    using assms by (cases s) simp_all
  obtain y ys where r: "rev s = y # ys"
    using assms(1) by (cases "rev s") auto
  then have "s = rev ys @ [y]"
    by (simp add: rev_swap)
  then have "y = last s" by simp
  with assms(3) have "dropWhile is_StrWhiteSpaceChar (y # ys) = y # ys"
    by simp
  then have "dropWhile is_StrWhiteSpaceChar (rev s) = rev s"
    by (simp only: r)
  then show ?thesis by (simp add: trim_def a)
qed

lemma StringToNumber_native_function: "StringToNumber (native_function name) = NaN"
proof -
  have t: "trim (native_function name) = native_function name"
    by (rule trim_id) (simp_all add: native_function_def is_StrWhiteSpaceChar_def)
  show ?thesis
    unfolding StringToNumber_def t Let_def
    by (simp add: native_function_def NonDecimalIntegerLiteral_def StrDecimalLiteral_def
        strip_sign_def StrUnsignedDecimalLiteral_def is_digit_def digit_of_def)
qed

lemma StringToNumber_object: "StringToNumber ''[object Object]'' = NaN"
  by (simp add: literal_defs)

lemma ToNumber_Object_prototype: "ToNumber (Object_prototype key) = NaN"
  by (simp add: Object_prototype_def StringToNumber_native_function StringToNumber_object)

lemma or_zero_read: "or_zero (ToNumber (read item col)) = numeric_or_zero (own item col)"
proof (cases "own item col")
  case None
  then show ?thesis
    by (simp add: read_def ToNumber_Object_prototype or_zero_def numeric_or_zero_def)
next
  case (Some v)
  then show ?thesis
    using or_zero_Number [of "Some v"] by (simp add: read_def)
qed

lemma sumBy_js_sum: "sumBy items f = js_sum (map f items)"
  by (cases items) (simp_all add: sumBy_def js_sum_def foldl_map)

lemma aggregate_count: "aggregate items valueCol count_op = Fin (of_nat (length items))"
  by (simp add: aggregate_def)

lemma aggregate_sum:
  "aggregate items valueCol sum_op = js_sum (map (\<lambda>item. numeric_or_zero (own item valueCol)) items)"
  by (simp add: aggregate_def sumBy_js_sum or_zero_read)







lemma ordinary_name_examples:
  "ordinary_name ''category''" "ordinary_name ''region''" "ordinary_name ''year''"
  by (simp_all add: ordinary_name_def Object_prototype_def)





text \<open>
  Claim C3, amended. When \<open>aggregateData\<close> returns a list, every row has a group key, and
  the results are enumerated in the key order of the grouping object: the groups whose key
  is an array index (a canonical decimal numeral below 4294967295) come first, in ascending
  numeric order, and the remaining groups follow in the order in which their keys first
  occur in the input. When no key is an array index, this is the first-occurrence order.
  When every row has the category column, or its name is ordinary, the keys are the string
  forms of the category cells.
\<close>

theorem aggregation_group_order:
  assumes "aggregateData resolve data categoryCol valueCol operation = Inr result"
  shows "\<exists>keys. category_keys resolve categoryCol data = Inr keys
     \<and> map fst result
         = sort_key (radix_value 10) (filter is_array_index (uniq keys))
           @ filter (\<lambda>k. \<not> is_array_index k) (uniq keys)
     \<and> uniq keys = rev (remdups (rev keys))
     \<and> ((\<forall>k \<in> set keys. \<not> is_array_index k) \<longrightarrow> map fst result = uniq keys)
     \<and> ((\<forall>row \<in> set data. categoryCol \<in> fst ` set row \<or> ordinary_name categoryCol)
          \<longrightarrow> keys = map (\<lambda>row. String (own row categoryCol)) data)"
proof -
  from assms obtain keys where k: "category_keys resolve categoryCol data = Inr keys"
    and r: "result = map (\<lambda>key. (key, round2 (aggregate (group_of resolve data categoryCol key)
                                            valueCol operation)))
                 (own_key_order (uniq keys))"
    by (auto simp: aggregateData_eq split: sum.splits)
  have names: "map fst result
         = sort_key (radix_value 10) (filter is_array_index (uniq keys))
           @ filter (\<lambda>k. \<not> is_array_index k) (uniq keys)"
    unfolding r by (simp add: comp_def own_key_order_def)
  have first: "uniq keys = rev (remdups (rev keys))"
    by (rule uniq_first_occurrences)
  have plain: "map fst result = uniq keys" if "\<forall>k \<in> set keys. \<not> is_array_index k"
  proof -
    from that have "filter is_array_index (uniq keys) = []"
      "filter (\<lambda>k. \<not> is_array_index k) (uniq keys) = uniq keys"
      by (simp_all add: filter_empty_conv set_uniq)
    then show ?thesis unfolding names by simp
  qed
  have cells: "keys = map (\<lambda>row. String (own row categoryCol)) data"
    if "\<forall>row \<in> set data. categoryCol \<in> fst ` set row \<or> ordinary_name categoryCol"
    using category_keys_cells [OF that, of resolve] k by simp
  from k names first plain cells show ?thesis by blast
qed

theorem aggregation_group_order_witness:
  "aggregateData example_resolve
     [[(''region'', JStr ''US'')], [(''region'', JStr ''EU'')], [(''region'', JStr ''US'')]]
     ''region'' ''amount'' sum_op = Inr [(''US'', Fin 0), (''EU'', Fin 0)]
   \<and> category_keys example_resolve ''region''
     [[(''region'', JStr ''US'')], [(''region'', JStr ''EU'')], [(''region'', JStr ''US'')]]
       = Inr [''US'', ''EU'', ''US'']
   \<and> map fst [(''US'', Fin 0 :: jsnum), (''EU'', Fin 0)] = uniq [''US'', ''EU'', ''US'']"
proof -
  let ?data = "[[(''region'', JStr ''US'')], [(''region'', JStr ''EU'')],
    [(''region'', JStr ''US'')]] :: DataRow list"
  have ord: "ordinary_name ''region''"
    by (rule ordinary_name_examples)
  have k: "category_keys example_resolve ''region'' ?data = Inr [''US'', ''EU'', ''US'']"
    using category_keys_ordinary [OF ord, of example_resolve ?data] by (simp add: own_def)
  have g: "group_of example_resolve ?data ''region'' ''US''
        = [[(''region'', JStr ''US'')], [(''region'', JStr ''US'')]]"
    "group_of example_resolve ?data ''region'' ''EU'' = [[(''region'', JStr ''EU'')]]"
    using group_of_ordinary [OF ord, of example_resolve ?data] by (simp_all add: own_def)
  have o: "own_key_order (uniq [''US'', ''EU'', ''US'']) = [''US'', ''EU'']"
    by (simp add: object_defs)
  have "\<lfloor>(1 :: rat) / 2\<rfloor> = 0"
    by (rule floor_unique) simp_all
  then have r0: "round2 (Fin 0) = Fin 0"
    by (simp add: round2_def)
  have a: "aggregate [[(''region'', JStr ''US'')], [(''region'', JStr ''US'')]] ''amount'' sum_op
        = Fin 0"
    "aggregate [[(''region'', JStr ''EU'')]] ''amount'' sum_op = Fin 0"
    by (simp_all add: aggregate_sum js_sum_def numeric_or_zero_def own_def)
  have m: "aggregateData example_resolve ?data ''region'' ''amount'' sum_op
      = Inr [(''US'', Fin 0), (''EU'', Fin 0)]"
    unfolding aggregateData_eq k by (simp add: o g a r0)
  have n: "\<forall>key \<in> set [''US'', ''EU'', ''US'']. \<not> is_array_index key"
    by (simp add: object_defs)
  from aggregation_group_order [OF m] obtain keys
    where "category_keys example_resolve ''region'' ?data = Inr keys"
      and "(\<forall>key \<in> set keys. \<not> is_array_index key)
             \<longrightarrow> map fst [(''US'', Fin 0 :: jsnum), (''EU'', Fin 0)] = uniq keys"
    by blast
  with k n have "map fst [(''US'', Fin 0 :: jsnum), (''EU'', Fin 0)] = uniq [''US'', ''EU'', ''US'']"
    by simp
  with m k show ?thesis by blast
qed

text \<open>
  The claim as it stands fails for keys that are array indices: the years 2021 and 2020, met
  in this order, are enumerated as 2020, 2021.
\<close>

theorem aggregation_group_order_counterexample:
  "aggregateData example_resolve [[(''year'', JStr ''2021'')], [(''year'', JStr ''2020'')]]
       ''year'' ''amount'' count_op = Inr [(''2020'', Fin 1), (''2021'', Fin 1)]
   \<and> category_keys example_resolve ''year''
        [[(''year'', JStr ''2021'')], [(''year'', JStr ''2020'')]] = Inr [''2021'', ''2020'']
   \<and> uniq [''2021'', ''2020''] = [''2021'', ''2020'']
   \<and> map fst [(''2020'', Fin 1 :: jsnum), (''2021'', Fin 1)] \<noteq> [''2021'', ''2020'']"
proof -
  let ?data = "[[(''year'', JStr ''2021'')], [(''year'', JStr ''2020'')]] :: DataRow list"
  have ord: "ordinary_name ''year''"
    by (rule ordinary_name_examples)
  have k: "category_keys example_resolve ''year'' ?data = Inr [''2021'', ''2020'']"
    using category_keys_ordinary [OF ord, of example_resolve ?data] by (simp add: own_def)
  have g: "group_of example_resolve ?data ''year'' ''2021'' = [[(''year'', JStr ''2021'')]]"
    "group_of example_resolve ?data ''year'' ''2020'' = [[(''year'', JStr ''2020'')]]"
    using group_of_ordinary [OF ord, of example_resolve ?data] by (simp_all add: own_def)
  have u: "uniq [''2021'', ''2020''] = [''2021'', ''2020'']"
    by (simp add: uniq_def)
  have o: "own_key_order [''2021'', ''2020''] = [''2020'', ''2021'']"
    by (simp add: object_defs)
  have r1: "round2 (Fin 1) = Fin 1"
    by (simp add: round2_def)
  have m: "aggregateData example_resolve ?data ''year'' ''amount'' count_op
      = Inr [(''2020'', Fin 1), (''2021'', Fin 1)]"
    unfolding aggregateData_eq k by (simp add: u o g aggregate_count r1)
  from m k u show ?thesis by simp
qed

text \<open>
  Claim C8. The code rounds a value by \<open>Math.round(value * 100) / 100\<close> in double
  arithmetic, and this is not the rounding of the aggregate to two decimals with a tie
  going up. For the single value 1.005 under \<open>sum\<close> the aggregate is the double nearest to
  1.005, its product with 100 is the double just below 100.5, and the result is 1; rounded
  half up to two decimals, 1.005 is 1.01. For the single value 1.115 the result is the
  double nearest to 1.12, although the aggregate, the double nearest to 1.115, lies below
  1.115 and its rounding half up to two decimals is 1.11.
\<close>

theorem aggregation_rounding_failing_input:
  "aggregateData example_resolve [[(''category'', JStr ''A''), (''amount'', JStr ''1.005'')]]
       ''category'' ''amount'' sum_op = Inr [(''A'', Fin 1)]
   \<and> aggregate [[(''category'', JStr ''A''), (''amount'', JStr ''1.005'')]] ''amount'' sum_op
       = binary64 (1005 / 1000)
   \<and> js_mul (binary64 (1005 / 1000)) (Fin 100) = Fin (7072058789855231 / 70368744177664)
   \<and> binary64 (half_up_2 (1005 / 1000)) = Fin (4548635623644201 / 4503599627370496)
   \<and> Fin (4548635623644201 / 4503599627370496) \<noteq> Fin 1
   \<and> aggregateData example_resolve [[(''category'', JStr ''A''), (''amount'', JStr ''1.115'')]]
       ''category'' ''amount'' sum_op = Inr [(''A'', binary64 (112 / 100))]
   \<and> aggregate [[(''category'', JStr ''A''), (''amount'', JStr ''1.115'')]] ''amount'' sum_op
       = Fin (5021513584518103 / 4503599627370496)
   \<and> half_up_2 (5021513584518103 / 4503599627370496) = 111 / 100
   \<and> binary64 (111 / 100) \<noteq> binary64 (112 / 100)"
proof -
  let ?d1 = "[[(''category'', JStr ''A''), (''amount'', JStr ''1.005'')]] :: DataRow list"
  let ?d2 = "[[(''category'', JStr ''A''), (''amount'', JStr ''1.115'')]] :: DataRow list"
  have ord: "ordinary_name ''category''"
    by (rule ordinary_name_examples)
  have k: "category_keys example_resolve ''category'' ?d1 = Inr [''A'']"
    "category_keys example_resolve ''category'' ?d2 = Inr [''A'']"
    using category_keys_ordinary [OF ord, of example_resolve] by (simp_all add: own_def)
  have g: "group_of example_resolve ?d1 ''category'' ''A'' = ?d1"
    "group_of example_resolve ?d2 ''category'' ''A'' = ?d2"
    using group_of_ordinary [OF ord, of example_resolve] by (simp_all add: own_def)
  have o: "own_key_order (uniq [''A'']) = [''A'']"
    by (simp add: object_defs)
  have d1: "binary64 (201 / 200) = Fin (1131529406376837 / 1125899906842624)"
    using binary64_eqI [of 0 "201 / 200" 4526117625507348] by simp
  have n1: "StringToNumber ''1.005'' = binary64 (201 / 200)"
    by (simp add: literal_defs)
  have p1: "js_mul (Fin (1131529406376837 / 1125899906842624)) (Fin 100)
      = Fin (7072058789855231 / 70368744177664)"
    using binary64_eqI [of 6 "1131529406376837 / 1125899906842624 * 100" 7072058789855231]
    by simp
  have r1: "round2 (Fin (1131529406376837 / 1125899906842624)) = Fin 1"
    unfolding round2_def p1 by simp
  have a1: "aggregate ?d1 ''amount'' sum_op = binary64 (1005 / 1000)"
    by (simp add: own_def aggregate_sum js_sum_def numeric_or_zero_def n1 d1)
  have c1: "aggregateData example_resolve ?d1 ''category'' ''amount'' sum_op
      = Inr [(''A'', Fin 1)]"
    unfolding aggregateData_eq k by (simp add: o g a1 d1 r1)
  have m1: "js_mul (binary64 (1005 / 1000)) (Fin 100) = Fin (7072058789855231 / 70368744177664)"
    using p1 by (simp add: d1)
  have h1: "binary64 (half_up_2 (1005 / 1000)) = Fin (4548635623644201 / 4503599627370496)"
    using binary64_eqI [of 0 "101 / 100" 4548635623644201] by (simp add: half_up_2_def)
  have d2: "binary64 (223 / 200) = Fin (5021513584518103 / 4503599627370496)"
    using binary64_eqI [of 0 "223 / 200" 5021513584518103] by simp
  have n2: "StringToNumber ''1.115'' = binary64 (223 / 200)"
    by (simp add: literal_defs)
  have p2: "js_mul (Fin (5021513584518103 / 4503599627370496)) (Fin 100) = Fin (223 / 2)"
    using binary64_eqI [of 6 "5021513584518103 / 4503599627370496 * 100" 7846114975809536]
    by simp
  have r2: "round2 (Fin (5021513584518103 / 4503599627370496)) = binary64 (112 / 100)"
    unfolding round2_def p2 by simp
  have a2: "aggregate ?d2 ''amount'' sum_op = Fin (5021513584518103 / 4503599627370496)"
    by (simp add: own_def aggregate_sum js_sum_def numeric_or_zero_def n2 d2)
  have c2: "aggregateData example_resolve ?d2 ''category'' ''amount'' sum_op
      = Inr [(''A'', binary64 (112 / 100))]"
    unfolding aggregateData_eq k by (simp add: o g a2 r2)
  have h2: "half_up_2 (5021513584518103 / 4503599627370496) = 111 / 100"
    by (simp add: half_up_2_def)
  have "binary64 (111 / 100) = Fin (4998995586381251 / 4503599627370496)"
    using binary64_eqI [of 0 "111 / 100" 4998995586381251] by simp
  moreover have "binary64 (112 / 100) = Fin (1261007895663739 / 1125899906842624)"
    using binary64_eqI [of 0 "112 / 100" 5044031582654956] by simp
  ultimately have ne: "binary64 (111 / 100) \<noteq> binary64 (112 / 100)" by simp
  have ne1: "Fin (4548635623644201 / 4503599627370496) \<noteq> Fin 1" by simp
  from c1 a1 m1 h1 ne1 c2 a2 h2 ne show ?thesis by blast
qed
section \<open>Dataset deletion\<close>

lemma remove_widgets_of_eq:
  assumes "widget_ids_distinct board" "layout_matches_widgets board"
  shows "remove_widgets_of i board =
     board\<lparr> widgets := filter (\<lambda>w. datasetId w \<noteq> i) (widgets board),
            layout := filter (\<lambda>l. \<not> (\<exists>w \<in> set (widgets board).
                                datasetId w = i \<and> widget_i w = layout_i l)) (layout board) \<rparr>"
proof -
  have inj: "inj_on widget_i (set (widgets board))"
    using assms(1) by (simp add: widget_ids_distinct_def distinct_map)
  have "layout_i l \<in> set (map widget_i (filter (\<lambda>w. datasetId w \<noteq> i) (widgets board)))
      \<longleftrightarrow> \<not> (\<exists>w \<in> set (widgets board). datasetId w = i \<and> widget_i w = layout_i l)"
    if l: "l \<in> set (layout board)" for l
  proof
    assume "layout_i l \<in> set (map widget_i (filter (\<lambda>w. datasetId w \<noteq> i) (widgets board)))"
    then obtain w' where w': "w' \<in> set (widgets board)" "datasetId w' \<noteq> i"
      "widget_i w' = layout_i l" by auto
    show "\<not> (\<exists>w \<in> set (widgets board). datasetId w = i \<and> widget_i w = layout_i l)"
    proof
      assume "\<exists>w \<in> set (widgets board). datasetId w = i \<and> widget_i w = layout_i l"
      then obtain w where w: "w \<in> set (widgets board)" "datasetId w = i"
        "widget_i w = layout_i l" by blast
      with w' have "widget_i w = widget_i w'" by simp
      with inj w(1) w'(1) have "w = w'" by (auto dest: inj_onD)
      with w(2) w'(2) show False by simp
    qed
  next
    assume n: "\<not> (\<exists>w \<in> set (widgets board). datasetId w = i \<and> widget_i w = layout_i l)"
    from l assms(2) have "layout_i l \<in> set (map widget_i (widgets board))"
      unfolding layout_matches_widgets_def by auto
    then obtain w where "w \<in> set (widgets board)" "widget_i w = layout_i l" by auto
    with n show "layout_i l \<in> set (map widget_i (filter (\<lambda>w. datasetId w \<noteq> i) (widgets board)))"
      by force
  qed
  then have "filter (\<lambda>l. layout_i l \<in> set (map widget_i
        (filter (\<lambda>w. datasetId w \<noteq> i) (widgets board)))) (layout board)
      = filter (\<lambda>l. \<not> (\<exists>w \<in> set (widgets board).
                                datasetId w = i \<and> widget_i w = layout_i l)) (layout board)"
    by (intro filter_cong) simp_all
  then show ?thesis
    by (simp add: remove_widgets_of_def Let_def)
qed

lemma remove_widgets_of_keeps_ids:
  assumes "widget_ids_distinct board" "layout_matches_widgets board"
  shows "widget_ids_distinct (remove_widgets_of i board)
    \<and> layout_matches_widgets (remove_widgets_of i board)"
proof -
  have d: "distinct (map widget_i (filter (\<lambda>w. datasetId w \<noteq> i) (widgets board)))"
    using assms(1) by (simp add: widget_ids_distinct_def distinct_map_filter)
  let ?remaining = "filter (\<lambda>w. datasetId w \<noteq> i) (widgets board)"
  have "set (map layout_i (filter (\<lambda>l. layout_i l \<in> set (map widget_i ?remaining))
        (layout board))) = set (map widget_i ?remaining)"
  proof
    show "set (map layout_i (filter (\<lambda>l. layout_i l \<in> set (map widget_i ?remaining))
        (layout board))) \<subseteq> set (map widget_i ?remaining)"
      by auto
    show "set (map widget_i ?remaining)
        \<subseteq> set (map layout_i (filter (\<lambda>l. layout_i l \<in> set (map widget_i ?remaining))
        (layout board)))"
    proof
      fix k assume k: "k \<in> set (map widget_i ?remaining)"
      then have "k \<in> set (map widget_i (widgets board))" by auto
      with assms(2) have "k \<in> set (map layout_i (layout board))"
        by (simp add: layout_matches_widgets_def)
      then obtain l where "l \<in> set (layout board)" "layout_i l = k" by auto
      with k show "k \<in> set (map layout_i (filter (\<lambda>l. layout_i l \<in> set (map widget_i ?remaining))
        (layout board)))"
        by force
    qed
  qed
  with d show ?thesis
    by (simp add: remove_widgets_of_def Let_def widget_ids_distinct_def
        layout_matches_widgets_def)
qed

lemma confirm_removeDataset:
  "handleConfirmAction (removeDataset i st) =
     st\<lparr> datasets := filter (\<lambda>d. dataset_id d \<noteq> i) (datasets st),
         boards := map (remove_widgets_of i) (boards st),
         activeDatasetId :=
           (if activeDatasetId st = Some i
            then (case filter (\<lambda>d. dataset_id d \<noteq> i) (datasets st) of
                    [] \<Rightarrow> None | d # _ \<Rightarrow> Some (dataset_id d))
            else activeDatasetId st),
         confirm_isOpen := False,
         confirm_onConfirm := RemoveDatasetAction i (datasets st) (activeDatasetId st) \<rparr>"
  by (simp add: handleConfirmAction_def removeDataset_def Let_def)

text \<open>
  Claim C6, amended. In a state where, in every board, the widget identifiers are pairwise
  distinct and the layout entries carry the same identifiers as the widgets, deleting a
  dataset removes from every board exactly the widgets of that dataset and the layout
  entries with the identifiers of those widgets; the other widgets and layout entries and
  the other fields of every board stay as they were, and afterwards no widget refers to a
  dataset that the deletion removed.
\<close>

theorem dataset_deletion_cascade:
  assumes "\<forall>b \<in> set (boards st). widget_ids_distinct b \<and> layout_matches_widgets b"
  shows "boards (handleConfirmAction (removeDataset i st)) =
       map (\<lambda>b. b\<lparr> widgets := filter (\<lambda>w. datasetId w \<noteq> i) (widgets b),
                    layout := filter (\<lambda>l. \<not> (\<exists>w \<in> set (widgets b).
                                  datasetId w = i \<and> widget_i w = layout_i l)) (layout b) \<rparr>)
         (boards st)
    \<and> datasets (handleConfirmAction (removeDataset i st))
        = filter (\<lambda>d. dataset_id d \<noteq> i) (datasets st)
    \<and> (\<forall>b \<in> set (boards (handleConfirmAction (removeDataset i st))).
          \<forall>w \<in> set (widgets b).
            datasetId w \<noteq> i
            \<and> (datasetId w \<in> dataset_id ` set (datasets st) \<longrightarrow>
                 datasetId w \<in> dataset_id ` set (datasets (handleConfirmAction (removeDataset i st)))))
    \<and> (\<forall>b \<in> set (boards (handleConfirmAction (removeDataset i st))).
          widget_ids_distinct b \<and> layout_matches_widgets b)"
proof (intro conjI)
  have "map (remove_widgets_of i) (boards st) =
       map (\<lambda>b. b\<lparr> widgets := filter (\<lambda>w. datasetId w \<noteq> i) (widgets b),
                    layout := filter (\<lambda>l. \<not> (\<exists>w \<in> set (widgets b).
                                  datasetId w = i \<and> widget_i w = layout_i l)) (layout b) \<rparr>)
         (boards st)"
    using assms by (intro map_cong refl remove_widgets_of_eq) simp_all
  then show "boards (handleConfirmAction (removeDataset i st)) =
       map (\<lambda>b. b\<lparr> widgets := filter (\<lambda>w. datasetId w \<noteq> i) (widgets b),
                    layout := filter (\<lambda>l. \<not> (\<exists>w \<in> set (widgets b).
                                  datasetId w = i \<and> widget_i w = layout_i l)) (layout b) \<rparr>)
         (boards st)"
    by (simp add: confirm_removeDataset)
  show "datasets (handleConfirmAction (removeDataset i st))
        = filter (\<lambda>d. dataset_id d \<noteq> i) (datasets st)"
    by (simp add: confirm_removeDataset)
  show "\<forall>b \<in> set (boards (handleConfirmAction (removeDataset i st))).
          \<forall>w \<in> set (widgets b).
            datasetId w \<noteq> i
            \<and> (datasetId w \<in> dataset_id ` set (datasets st) \<longrightarrow>
                 datasetId w \<in> dataset_id ` set (datasets (handleConfirmAction (removeDataset i st))))"
    by (auto simp: confirm_removeDataset remove_widgets_of_def Let_def)
  show "\<forall>b \<in> set (boards (handleConfirmAction (removeDataset i st))).
          widget_ids_distinct b \<and> layout_matches_widgets b"
    using assms by (auto simp: confirm_removeDataset remove_widgets_of_keeps_ids)
qed
theorem dataset_deletion_cascade_witness:
  "boards (handleConfirmAction (removeDataset ''X''
     ((initial_App (Fin 1700000000000))
        \<lparr> datasets := [example_dataset ''X'', example_dataset ''Y''],
          activeDatasetId := Some ''X'',
          boards := [\<lparr> board_id = ''default'', board_name = ''default board'',
                       layout = [example_layout ''w1'', example_layout ''w2''],
                       widgets = [example_widget ''w1'' ''X'', example_widget ''w2'' ''Y''],
                       filters = Some [], createdAt = Fin 1700000000000 \<rparr>] \<rparr>)))
   = [\<lparr> board_id = ''default'', board_name = ''default board'',
         layout = [example_layout ''w2''], widgets = [example_widget ''w2'' ''Y''],
         filters = Some [], createdAt = Fin 1700000000000 \<rparr>]"
proof -
  let ?st = "(initial_App (Fin 1700000000000))
        \<lparr> datasets := [example_dataset ''X'', example_dataset ''Y''],
          activeDatasetId := Some ''X'',
          boards := [\<lparr> board_id = ''default'', board_name = ''default board'',
                       layout = [example_layout ''w1'', example_layout ''w2''],
                       widgets = [example_widget ''w1'' ''X'', example_widget ''w2'' ''Y''],
                       filters = Some [], createdAt = Fin 1700000000000 \<rparr>] \<rparr>"
  have h: "\<forall>b \<in> set (boards ?st). widget_ids_distinct b \<and> layout_matches_widgets b"
    by (simp add: widget_ids_distinct_def layout_matches_widgets_def example_widget_def
        example_layout_def)
  have "boards (handleConfirmAction (removeDataset ''X'' ?st)) =
       map (\<lambda>b. b\<lparr> widgets := filter (\<lambda>w. datasetId w \<noteq> ''X'') (widgets b),
                    layout := filter (\<lambda>l. \<not> (\<exists>w \<in> set (widgets b).
                                  datasetId w = ''X'' \<and> widget_i w = layout_i l)) (layout b) \<rparr>)
         (boards ?st)"
    using dataset_deletion_cascade [OF h, of "''X''"] by blast
  also have "\<dots> = [\<lparr> board_id = ''default'', board_name = ''default board'',
         layout = [example_layout ''w2''], widgets = [example_widget ''w2'' ''Y''],
         filters = Some [], createdAt = Fin 1700000000000 \<rparr>]"
    by (simp add: example_widget_def example_layout_def)
  finally show ?thesis .
qed

theorem dataset_deletion_cascade_counterexample:
  "map layout_i [example_layout ''w1'', (example_layout ''w1'')\<lparr> layout_x := Fin 4 \<rparr>]
     = map widget_i [example_widget ''w1'' ''X'', example_widget ''w1'' ''Y'']
   \<and> boards (handleConfirmAction (removeDataset ''X''
       ((initial_App (Fin 1700000000000))
          \<lparr> datasets := [example_dataset ''X'', example_dataset ''Y''],
            activeDatasetId := Some ''X'',
            boards := [\<lparr> board_id = ''default'', board_name = ''default board'',
                         layout = [example_layout ''w1'',
                                   (example_layout ''w1'')\<lparr> layout_x := Fin 4 \<rparr>],
                         widgets = [example_widget ''w1'' ''X'', example_widget ''w1'' ''Y''],
                         filters = Some [], createdAt = Fin 1700000000000 \<rparr>] \<rparr>)))
     = [\<lparr> board_id = ''default'', board_name = ''default board'',
           layout = [example_layout ''w1'', (example_layout ''w1'')\<lparr> layout_x := Fin 4 \<rparr>],
           widgets = [example_widget ''w1'' ''Y''],
           filters = Some [], createdAt = Fin 1700000000000 \<rparr>]"
  by (simp add: confirm_removeDataset remove_widgets_of_def example_widget_def
      example_layout_def initial_App_def)
end
